theory Spec2Isabelle
  imports Complex_Main
begin

section \<open>The virtualizer engine of \<^verbatim>\<open>src/Virtualizer/VirtualManager.ts\<close>\<close>

text \<open>
  The engine is embedded as pure functions over an explicit state record. A value of
  TypeScript's \<^verbatim>\<open>number\<close> is an exact rational: the rounding of IEEE doubles is
  outside the model (pixel sizes, offsets and pins such as \<open>0\<close>, \<open>1/2\<close>, \<open>1\<close> are
  represented exactly by both). A key is a \<open>string\<close>. An item is a value of an arbitrary
  type \<open>'a\<close>, taken to be an object (never \<^verbatim>\<open>null\<close>, always truthy). The plain
  object \<^verbatim>\<open>itemProperties\<close> is a map from keys; keys that name a property inherited
  from \<^verbatim>\<open>Object.prototype\<close> are outside the model.
\<close>

subsection \<open>Numbers\<close>

type_synonym number = rat

definition Math_round :: "number \<Rightarrow> number" where
  \<comment> \<open>\<^verbatim>\<open>Math.round\<close>: the nearest integer, a half rounded towards plus infinity.\<close>
  "Math_round v = of_int \<lfloor>v + 1 / 2\<rfloor>"

definition Math_sign :: "number \<Rightarrow> number" where
  "Math_sign v = (if v > 0 then 1 else if v < 0 then - 1 else 0)"

subsection \<open>Geometry: \<^verbatim>\<open>Rect\<close> and \<^verbatim>\<open>Margin\<close>\<close>

text \<open>
  \<^verbatim>\<open>common/Rect\<close> and \<^verbatim>\<open>common/Margin\<close> are imported by the engine and are not
  part of the source under study. A \<^verbatim>\<open>Rect\<close> has the four numbers the engine reads. Of a
  \<^verbatim>\<open>Margin\<close> the engine reads \<^verbatim>\<open>left\<close>, \<^verbatim>\<open>top\<close>, \<^verbatim>\<open>horizontal\<close> and
  \<^verbatim>\<open>vertical\<close>; the record holds exactly these, with no relation assumed between them.
\<close>

record Rect =
  rect_x :: number
  rect_y :: number
  rect_width :: number
  rect_height :: number

record Margin =
  margin_left :: number
  margin_top :: number
  margin_horizontal :: number
  margin_vertical :: number

definition Margin_zero :: Margin where
  \<comment> \<open>Modelled from the spec: the value of \<^verbatim>\<open>new Margin(0)\<close>, the \<^verbatim>\<open>Margin\<close> class
      being absent from \<^verbatim>\<open>src/\<close>: a margin of zero, every member of which is zero.\<close>
  "Margin_zero = \<lparr>margin_left = 0, margin_top = 0, margin_horizontal = 0, margin_vertical = 0\<rparr>"

text \<open>
  The rectangle a caller's \<^verbatim>\<open>itemRect\<close> function returns is checked by the engine for
  missing members, so each member is optional in the model.
\<close>

record RectInput =
  in_x :: "number option"
  in_y :: "number option"
  in_width :: "number option"
  in_height :: "number option"

subsection \<open>\<^verbatim>\<open>ClassProperties\<close>: the size estimator of one kind\<close>

text \<open>
  \<^verbatim>\<open>cssInline\<close> is \<open>None\<close> while unassigned (the engine tests it against
  \<^verbatim>\<open>null\<close>). \<^verbatim>\<open>cssMargin\<close>, \<^verbatim>\<open>width\<close> and \<^verbatim>\<open>height\<close> are unassigned in a new
  object too; the only place that constructs one assigns all three before anything reads
  them, and the model starts them at zero.
\<close>

record ClassProperties =
  cp_type :: string
  cssInline :: "bool option"
  cssMargin :: Margin
  cp_width :: number
  cp_height :: number
  valid :: bool
  totalItemWidth :: number
  totalItemHeight :: number
  totalItemCount :: number

definition ClassProperties_new :: "string \<Rightarrow> ClassProperties" where
  "ClassProperties_new t =
     \<lparr>cp_type = t, cssInline = None, cssMargin = Margin_zero, cp_width = 0, cp_height = 0,
      valid = False, totalItemWidth = 0, totalItemHeight = 0, totalItemCount = 0\<rparr>"

definition invalidate :: "ClassProperties \<Rightarrow> ClassProperties" where
  "invalidate cp =
     cp\<lparr>valid := False, totalItemCount := 0, totalItemWidth := 0, totalItemHeight := 0\<rparr>"

definition setItemSize :: "number \<Rightarrow> number \<Rightarrow> ClassProperties \<Rightarrow> ClassProperties" where
  "setItemSize w h cp =
     (let tw = totalItemWidth cp + w;
          th = totalItemHeight cp + h;
          tc = totalItemCount cp + 1
      in cp\<lparr>totalItemWidth := tw, totalItemHeight := th, totalItemCount := tc,
            cp_width := Math_round (tw / tc), cp_height := Math_round (th / tc)\<rparr>)"

text \<open>Recording a sequence of samples, one \<^verbatim>\<open>setItemSize\<close> call each, in order.\<close>

fun recordSamples :: "(number \<times> number) list \<Rightarrow> ClassProperties \<Rightarrow> ClassProperties" where
  "recordSamples [] cp = cp"
| "recordSamples ((w, h) # rest) cp = recordSamples rest (setItemSize w h cp)"

subsection \<open>\<^verbatim>\<open>ItemProperties\<close>: the cached rectangle of one item\<close>

record ItemProperties = Rect +
  ip_type :: string

definition ItemProperties_new :: "string \<Rightarrow> ItemProperties" where
  "ItemProperties_new t =
     \<lparr>rect_x = 0, rect_y = 0, rect_width = 0, rect_height = 0, ip_type = t\<rparr>"

subsection \<open>Errors\<close>

text \<open>
  Every \<^verbatim>\<open>throw\<close> of the engine is a value: duplicate keys in \<^verbatim>\<open>update\<close>, a child
  element without a data key in \<^verbatim>\<open>getElementLookupByKey\<close> (with the child's index), an
  incomplete rectangle in \<^verbatim>\<open>getItemRect\<close>, and the \<^verbatim>\<open>TypeError\<close> the runtime raises
  when manual layout reads a member of a \<^verbatim>\<open>null\<close> rectangle. The state is mutated in
  place, so a function that throws hands back the state it has reached.
\<close>

datatype error =
  DuplicateKey string
| ElementWithoutDataKey nat
| IncompleteRect RectInput
| TypeError

subsection \<open>The container, its children and the environment\<close>

text \<open>
  The scrollable container and the elements the host framework rendered into it are a
  passive store: the engine reads what the environment left there and its writes are
  recorded. An assignment to \<^verbatim>\<open>scrollTop\<close> stores the number as written: the engine's
  own comment says that the host does not clip it, and \<^verbatim>\<open>updateIndexes\<close> clips it
  itself. The \<^verbatim>\<open>px\<close> helper formats a number as a pixel length; a style length is
  kept as that number (\<open>None\<close> while unset). \<^verbatim>\<open>computed_display\<close>,
  \<^verbatim>\<open>computed_margin\<close> and \<^verbatim>\<open>computed_padding\<close> are what \<^verbatim>\<open>getComputedStyle\<close>
  with \<^verbatim>\<open>Margin.fromCssMargin\<close> and \<^verbatim>\<open>Margin.fromCssPadding\<close> give for the element.
\<close>

record Style =
  style_position :: string
  style_left :: "number option"
  style_top :: "number option"
  style_width :: "number option"
  style_height :: "number option"
  style_display :: string

record Node =
  nodeType :: nat
  dataset_key :: "string option"
  dataset_type :: "string option"
  offsetWidth :: number
  offsetHeight :: number
  computed_display :: string
  computed_margin :: Margin
  computed_padding :: Margin
  style :: Style

record ScrollToOptions =
  sto_top :: number
  sto_behavior :: "string option"

record Container =
  scrollTop :: number
  scrollHeight :: number
  clientHeight :: number
  clientWidth :: number
  children :: "Node list"
  scrollToCalls :: "ScrollToOptions list"

definition isHTMLElement :: "Node \<Rightarrow> bool" where
  "isHTMLElement node = (nodeType node = 1)"

definition truthy :: "string option \<Rightarrow> bool" where
  \<comment> \<open>a string or \<^verbatim>\<open>undefined\<close> used as a condition: false for \<^verbatim>\<open>undefined\<close> and for the empty string\<close>
  "truthy v = (case v of None \<Rightarrow> False | Some k \<Rightarrow> k \<noteq> [])"

subsection \<open>The engine's state\<close>

record ScrollAnchor =
  anchor_itemKey :: string
  itemPin :: number
  windowPin :: number

text \<open>
  \<^verbatim>\<open>activeElement\<close> is \<^verbatim>\<open>document.activeElement\<close> followed by its ancestors, as
  the \<^verbatim>\<open>parentNode\<close> chain lists them. \<^verbatim>\<open>setRenderKeysCalls\<close> records the
  arguments of the calls of the host's \<^verbatim>\<open>setRenderKeys\<close> callback, oldest first; the
  host acts on a call after the pass (the source notes that the render keys do not change
  until the host re-renders and calls \<^verbatim>\<open>update\<close>).
  \<^verbatim>\<open>placeholder_height\<close> is the \<^verbatim>\<open>style.height\<close> of the placeholder element, which the
  engine holds by reference. The resize observer is an external collaborator and its
  \<^verbatim>\<open>observe\<close> calls are not recorded, nor is what the engine writes to the console.
\<close>

record 'a VirtualManager =
  container :: Container
  activeElement :: "Node list"
  items :: "'a list"
  itemLookup :: "string \<rightharpoonup> 'a"
  itemKey :: "'a \<Rightarrow> string"
  itemType :: "'a \<Rightarrow> string"
  itemRect :: "('a \<Rightarrow> RectInput option) option"
  renderKeys :: "string list"
  setRenderKeysCalls :: "string list list"
  itemProperties :: "string \<rightharpoonup> ItemProperties"
  classProperties :: "string \<rightharpoonup> ClassProperties"
  containerPadding :: Margin
  placeholder_height :: "number option"
  containerWidth :: number
  scrollAnchor :: "ScrollAnchor option"
  isScrolling :: bool
  lastScrollTop :: number
  scrollDirection :: number
  previousItems :: "'a list option"

definition initialVisibleItemCount :: nat where
  "initialVisibleItemCount = 30"

definition pageSize :: "'a VirtualManager \<Rightarrow> number" where
  "pageSize s = clientHeight (container s)"

definition prerenderOtherDirection :: number where
  "prerenderOtherDirection = 100"

definition prerenderScrollDirection :: number where
  "prerenderScrollDirection = 500"

definition isManualLayout :: "'a VirtualManager \<Rightarrow> bool" where
  "isManualLayout s = (itemRect s \<noteq> None)"

text \<open>A JavaScript \<^verbatim>\<open>Set\<close> of keys is the list of its members in insertion order.\<close>

definition Set_add :: "string \<Rightarrow> string list \<Rightarrow> string list" where
  "Set_add k ks = (if k \<in> set ks then ks else ks @ [k])"

fun Set_addAll :: "string list \<Rightarrow> string list \<Rightarrow> string list" where
  "Set_addAll [] ks = ks"
| "Set_addAll (k # rest) ks = Set_addAll rest (Set_add k ks)"

subsection \<open>\<^verbatim>\<open>getItemRect\<close> and \<^verbatim>\<open>getItemProperties\<close>\<close>

definition getItemRect :: "'a VirtualManager \<Rightarrow> 'a \<Rightarrow> string option \<Rightarrow> error + Rect option" where
  "getItemRect s item key =
     (case (case itemRect s of None \<Rightarrow> None | Some f \<Rightarrow> f item) of
        Some rect \<Rightarrow>
          if in_x rect = None \<or> in_y rect = None \<or> in_width rect = None \<or> in_height rect = None
          then Inl (IncompleteRect rect)
          else Inr (Some \<lparr>rect_x = the (in_x rect), rect_y = the (in_y rect),
                          rect_width = the (in_width rect), rect_height = the (in_height rect)\<rparr>)
      | None \<Rightarrow>
          (let k = (case key of None \<Rightarrow> itemKey s item | Some k \<Rightarrow> k)
           in case itemProperties s k of
                Some props \<Rightarrow> Inr (Some (Rect.truncate props))
              | None \<Rightarrow> Inr None))"

text \<open>
  \<^verbatim>\<open>getItemProperties\<close> returns the cached object of the key, created on first use and
  seeded from the kind's averages where its own width or height is zero. The model returns
  the object's value together with the state that holds it.
\<close>

definition getItemProperties ::
  "string \<Rightarrow> string \<Rightarrow> 'a VirtualManager \<Rightarrow> ItemProperties \<times> 'a VirtualManager" where
  "getItemProperties key t s =
     (let props = (case itemProperties s key of None \<Rightarrow> ItemProperties_new t | Some p \<Rightarrow> p);
          seeded =
            (case classProperties s t of
               None \<Rightarrow> props
             | Some classProps \<Rightarrow>
                 (let p1 = (if rect_width props = 0
                            then props\<lparr>rect_width := cp_width classProps\<rparr> else props)
                  in if rect_height p1 = 0 then p1\<lparr>rect_height := cp_height classProps\<rparr> else p1))
      in (seeded, s\<lparr>itemProperties := (itemProperties s)(key \<mapsto> seeded)\<rparr>))"

subsection \<open>Reading the rendered elements\<close>

fun firstDataKey :: "Node list \<Rightarrow> string option" where
  "firstDataKey [] = None"
| "firstDataKey (element # parents) =
     (if isHTMLElement element \<and> truthy (dataset_key element) then dataset_key element
      else firstDataKey parents)"

definition getFocusedItemKey :: "'a VirtualManager \<Rightarrow> string option" where
  "getFocusedItemKey s = firstDataKey (activeElement s)"

text \<open>
  The element lookup maps a data key to the position of its element among the container's
  children (the last one, when several children carry the same key). A child element with
  no data key is an error unless it is the first child, the placeholder.
\<close>

fun elementLookupFrom :: "nat \<Rightarrow> Node list \<Rightarrow> (string \<rightharpoonup> nat) \<Rightarrow> error + (string \<rightharpoonup> nat)" where
  "elementLookupFrom index [] lookup = Inr lookup"
| "elementLookupFrom index (child # rest) lookup =
     (if isHTMLElement child then
        (if truthy (dataset_key child)
         then elementLookupFrom (index + 1) rest (lookup(the (dataset_key child) \<mapsto> index))
         else if index \<noteq> 0 then Inl (ElementWithoutDataKey index)
         else elementLookupFrom (index + 1) rest lookup)
      else elementLookupFrom (index + 1) rest lookup)"

definition getElementLookupByKey :: "'a VirtualManager \<Rightarrow> error + (string \<rightharpoonup> nat)" where
  "getElementLookupByKey s = elementLookupFrom 0 (children (container s)) Map.empty"

subsection \<open>The visibility calculator: \<^verbatim>\<open>getRenderItemIndices\<close>\<close>

definition renderWindow :: "'a VirtualManager \<Rightarrow> number \<Rightarrow> number \<times> number" where
  \<comment> \<open>the window \<open>(top, bottom)\<close> the item loop tests against\<close>
  "renderWindow s direction =
     (let scrollTop0 = max 0 (scrollTop (container s));
          prerenderScroll =
            (if direction = 0 then prerenderOtherDirection else prerenderScrollDirection);
          totalPagesHeight = pageSize s + prerenderScroll + prerenderOtherDirection;
          wtop = max 0 (scrollTop0 - (if direction \<ge> 0 then prerenderOtherDirection else prerenderScroll))
      in (wtop, wtop + totalPagesHeight))"

definition inWindow :: "number \<Rightarrow> number \<Rightarrow> Rect option \<Rightarrow> bool" where
  "inWindow wtop wbottom rect =
     (case rect of None \<Rightarrow> False
      | Some r \<Rightarrow> rect_y r + rect_height r > wtop \<and> rect_y r \<le> wbottom)"

text \<open>
  \<^verbatim>\<open>presizeTypes\<close> is a \<^verbatim>\<open>Map\<close> from a kind to the key of the first item of the kind
  that failed the window test: a list of pairs in insertion order, \<open>None\<close> under manual
  layout.
\<close>

definition presizeAdd :: "string \<Rightarrow> string \<Rightarrow> (string \<times> string) list \<Rightarrow> (string \<times> string) list" where
  "presizeAdd t key types = (if map_of types t = None then types @ [(t, key)] else types)"

fun scanItems ::
  "'a VirtualManager \<Rightarrow> number \<Rightarrow> number \<Rightarrow> 'a list \<Rightarrow>
   string list \<Rightarrow> string list \<Rightarrow> (string \<times> string) list option \<Rightarrow>
   error + (string list \<times> string list \<times> (string \<times> string) list option)" where
  "scanItems s wtop wbottom [] wanted existingKeys presizeTypes =
     Inr (wanted, existingKeys, presizeTypes)"
| "scanItems s wtop wbottom (item # rest) wanted existingKeys presizeTypes =
     (let key = itemKey s item;
          existingKeys' = Set_add key existingKeys
      in case getItemRect s item (Some key) of
           Inl e \<Rightarrow> Inl e
         | Inr rect \<Rightarrow>
             if inWindow wtop wbottom rect
             then scanItems s wtop wbottom rest (Set_add key wanted) existingKeys' presizeTypes
             else scanItems s wtop wbottom rest wanted existingKeys'
                    (case presizeTypes of
                       None \<Rightarrow> None
                     | Some types \<Rightarrow> Some (presizeAdd (itemType s item) key types)))"

definition getRenderItemIndices ::
  "number \<Rightarrow> 'a VirtualManager \<Rightarrow> error + (string list \<times> string list)" where
  "getRenderItemIndices direction s =
     (case scanItems s (fst (renderWindow s direction)) (snd (renderWindow s direction))
             (items s) [] [] (if isManualLayout s then None else Some []) of
        Inl e \<Rightarrow> Inl e
      | Inr (renderKeys0, existingKeys, presizeTypes) \<Rightarrow>
          (let renderKeys1 =
                 (if renderKeys0 = []
                  then Set_addAll (map (itemKey s) (take initialVisibleItemCount (items s))) renderKeys0
                  else renderKeys0);
               renderKeys2 =
                 (if truthy (getFocusedItemKey s)
                  then Set_add (the (getFocusedItemKey s)) renderKeys1 else renderKeys1);
               renderKeys3 =
                 (case presizeTypes of
                    None \<Rightarrow> renderKeys2
                  | Some types \<Rightarrow> Set_addAll (map snd types) renderKeys2)
           in Inr (renderKeys3, existingKeys)))"

subsection \<open>\<^verbatim>\<open>JSON.stringify\<close> of an array of strings\<close>

text \<open>
  A key is a list of 8-bit characters. \<^verbatim>\<open>JSON.stringify\<close> quotes each string,
  escaping the quote, the backslash and the control characters, and joins the quoted
  strings with commas between brackets.
\<close>

definition hexDigit :: "nat \<Rightarrow> char" where
  "hexDigit n = (if n < 10 then char_of (48 + n) else char_of (87 + n))"

definition jsonEscape :: "char \<Rightarrow> string" where
  "jsonEscape c =
     (let n = (of_char c :: nat) in
      if n = 34 then [CHR 0x5C, CHR 0x22]
      else if n = 92 then [CHR 0x5C, CHR 0x5C]
      else if n = 8 then [CHR 0x5C, CHR ''b'']
      else if n = 12 then [CHR 0x5C, CHR ''f'']
      else if n = 10 then [CHR 0x5C, CHR ''n'']
      else if n = 13 then [CHR 0x5C, CHR ''r'']
      else if n = 9 then [CHR 0x5C, CHR ''t'']
      else if n < 32 then
        [CHR 0x5C, CHR ''u'', CHR ''0'', CHR ''0'', hexDigit (n div 16), hexDigit (n mod 16)]
      else [c])"

definition jsonQuote :: "string \<Rightarrow> string" where
  "jsonQuote k = CHR 0x22 # concat (map jsonEscape k) @ [CHR 0x22]"

fun jsonJoin :: "string list \<Rightarrow> string" where
  "jsonJoin [] = []"
| "jsonJoin [k] = jsonQuote k"
| "jsonJoin (k # rest) = jsonQuote k @ CHR '','' # jsonJoin rest"

definition JSON_stringify :: "string list \<Rightarrow> string" where
  "JSON_stringify keys = CHR ''['' # jsonJoin keys @ [CHR '']'']"

subsection \<open>The reconciliation pass: \<^verbatim>\<open>updateIndexes\<close>\<close>

text \<open>
  \<^verbatim>\<open>getStableArray\<close> is imported from a module that is not part of the source under
  study; \<^verbatim>\<open>updateIndexes\<close> takes it as a parameter, with the arguments of the call in
  the source: the old keys, the desired keys, and twice the kind lookup.
\<close>

type_synonym stableArray =
  "string list \<Rightarrow> string list \<Rightarrow> (string \<Rightarrow> string option) \<Rightarrow> (string \<Rightarrow> string option) \<Rightarrow> string list"

definition getType :: "'a VirtualManager \<Rightarrow> string \<Rightarrow> string option" where
  "getType s key = (case itemLookup s key of None \<Rightarrow> None | Some item \<Rightarrow> Some (itemType s item))"

definition updateStyle :: "nat \<Rightarrow> (Style \<Rightarrow> Style) \<Rightarrow> 'a VirtualManager \<Rightarrow> 'a VirtualManager" where
  \<comment> \<open>a write to the \<^verbatim>\<open>style\<close> of the child element at a position\<close>
  "updateStyle i f s =
     s\<lparr>container := (container s)
         \<lparr>children := (children (container s))
            [i := (children (container s) ! i)\<lparr>style := f (style (children (container s) ! i))\<rparr>]\<rparr>\<rparr>"

fun setDisplays ::
  "(string \<rightharpoonup> nat) \<Rightarrow> string list \<Rightarrow> string list \<Rightarrow> 'a VirtualManager \<Rightarrow> 'a VirtualManager" where
  "setDisplays elementLookup existingKeys [] s = s"
| "setDisplays elementLookup existingKeys (key # rest) s =
     setDisplays elementLookup existingKeys rest
       (case elementLookup key of
          None \<Rightarrow> s
        | Some i \<Rightarrow>
            (let deleted = (key \<notin> set existingKeys)
             in updateStyle i (\<lambda>st. st\<lparr>style_display := (if deleted then ''none'' else [])\<rparr>) s))"

text \<open>
  The first part of \<^verbatim>\<open>updateIndexes\<close>: the scroll offset is clipped to the scrollable
  range, and the scroll direction follows the change of the offset since the last pass,
  or is reset when the number of items changed.
\<close>

definition trackScroll :: "'a VirtualManager \<Rightarrow> 'a VirtualManager" where
  "trackScroll s =
     (let c = container s;
          clipped = max 0 (min (scrollTop c) (scrollHeight c - clientHeight c));
          s1 = (if scrollTop c \<noteq> clipped then s\<lparr>container := c\<lparr>scrollTop := clipped\<rparr>\<rparr> else s);
          scrollDelta = clipped - lastScrollTop s1;
          s2 = s1\<lparr>lastScrollTop := clipped\<rparr>;
          previous = (case previousItems s2 of None \<Rightarrow> items s2 | Some p \<Rightarrow> p);
          s3 = s2\<lparr>previousItems := Some (items s2)\<rparr>;
          itemsProbablyChanged = (length (items s3) \<noteq> length previous)
      in if itemsProbablyChanged then s3\<lparr>scrollDirection := 0\<rparr>
         else if scrollDelta \<noteq> 0 then s3\<lparr>scrollDirection := Math_sign scrollDelta\<rparr>
         else s3)"

definition updateIndexes ::
  "stableArray \<Rightarrow> 'a VirtualManager \<Rightarrow> (error + bool option) \<times> 'a VirtualManager" where
  "updateIndexes getStableArray s =
     (if pageSize s = 0 then (Inr None, s)
      else
        (let s1 = trackScroll s
         in case getRenderItemIndices (scrollDirection s1) s1 of
              Inl e \<Rightarrow> (Inl e, s1)
            | Inr (desiredKeys, existingKeys) \<Rightarrow>
                (let oldKeys = renderKeys s1;
                     newKeys = getStableArray oldKeys desiredKeys (getType s1) (getType s1)
                 in case getElementLookupByKey s1 of
                      Inl e \<Rightarrow> (Inl e, s1)
                    | Inr elementLookup \<Rightarrow>
                        (let s2 = setDisplays elementLookup existingKeys newKeys s1
                         in if length oldKeys \<noteq> length newKeys
                               \<or> JSON_stringify oldKeys \<noteq> JSON_stringify newKeys
                            then (Inr (Some True),
                                  s2\<lparr>setRenderKeysCalls := setRenderKeysCalls s2 @ [newKeys]\<rparr>)
                            else (Inr (Some False), s2)))))"

subsection \<open>Measuring the rendered elements: \<^verbatim>\<open>onElementSized\<close>\<close>

fun startsWith :: "string \<Rightarrow> string \<Rightarrow> bool" where
  "startsWith [] cs = True"
| "startsWith (p # ps) [] = False"
| "startsWith (p # ps) (c # cs) = (p = c \<and> startsWith ps cs)"

fun containsText :: "string \<Rightarrow> string \<Rightarrow> bool" where
  \<comment> \<open>\<^verbatim>\<open>text.indexOf(part) >= 0\<close>\<close>
  "containsText part [] = (part = [])"
| "containsText part (c # cs) = (startsWith part (c # cs) \<or> containsText part cs)"

text \<open>
  The flag says whether the element is the container itself. The engine passes its
  children only; the host may pass the container.
\<close>

definition onElementSized :: "bool \<Rightarrow> Node \<Rightarrow> 'a VirtualManager \<Rightarrow> 'a VirtualManager" where
  "onElementSized isContainer element s =
     (let s0 = (if isContainer then s\<lparr>containerPadding := computed_padding element\<rparr> else s)
      in if truthy (dataset_key element) \<and> truthy (dataset_type element) then
           (let key = the (dataset_key element);
                t = the (dataset_type element);
                (properties, s1) =
                  (case itemProperties s0 key of
                     None \<Rightarrow> getItemProperties key t s0
                   | Some p \<Rightarrow> (p, s0));
                w = offsetWidth element;
                h = offsetHeight element
            in if w > 0 \<and> h > 0 then
                 (let changed = (w \<noteq> rect_width properties \<or> h \<noteq> rect_height properties);
                      s2 = s1\<lparr>itemProperties := (itemProperties s1)
                              (key \<mapsto> properties\<lparr>rect_width := w, rect_height := h\<rparr>)\<rparr>
                  in if changed then
                       (let found = classProperties s2 t;
                            classProps =
                              (if found = None \<or> \<not> valid (the found) then
                                 (let cp0 = (case found of None \<Rightarrow> ClassProperties_new t | Some cp \<Rightarrow> cp);
                                      cp1 = (if cssInline cp0 = None
                                             then cp0\<lparr>cssInline :=
                                                    Some (containsText ''inline'' (computed_display element))\<rparr>
                                             else cp0)
                                  in cp1\<lparr>cssMargin := computed_margin element\<rparr>)
                               else the found)
                        in s2\<lparr>classProperties := (classProperties s2)(t \<mapsto> setItemSize w h classProps)\<rparr>)
                     else s2)
               else s1)
         else s0)"

fun sizeChildren :: "Node list \<Rightarrow> 'a VirtualManager \<Rightarrow> 'a VirtualManager" where
  "sizeChildren [] s = s"
| "sizeChildren (child # rest) s =
     sizeChildren rest (if nodeType child = 1 then onElementSized False child s else s)"

definition ensureElementsObservedAndSized :: "'a VirtualManager \<Rightarrow> 'a VirtualManager" where
  "ensureElementsObservedAndSized s = sizeChildren (children (container s)) s"

subsection \<open>The layout engine and the scroll anchor corrector\<close>

definition correctForScrollAnchor :: "'a VirtualManager \<Rightarrow> 'a VirtualManager" where
  "correctForScrollAnchor s =
     (case scrollAnchor s of
        None \<Rightarrow> s
      | Some anchor \<Rightarrow>
          (case itemProperties s (anchor_itemKey anchor) of
             None \<Rightarrow> s
           | Some itemProps \<Rightarrow>
               (let currentOffset = rect_y itemProps;
                    targetOffset =
                      scrollTop (container s)
                      - rect_height itemProps * itemPin anchor
                      + clientHeight (container s) * windowPin anchor;
                    correction = targetOffset - currentOffset
                in if correction = 0 then s\<lparr>scrollAnchor := None\<rparr>
                   else s\<lparr>container := (container s)
                           \<lparr>scrollTop := scrollTop (container s) - correction\<rparr>\<rparr>)))"

text \<open>
  One turn of the item loop of \<^verbatim>\<open>layoutChildren\<close>. The pen is \<open>(x, y, height)\<close>. The
  result is the pen for the next item, or \<open>None\<close> when the loop breaks because the kind
  has no class properties yet.
\<close>

definition layoutItem ::
  "(string \<rightharpoonup> nat) \<Rightarrow> number \<Rightarrow> 'a \<Rightarrow> number \<times> number \<times> number \<Rightarrow> 'a VirtualManager \<Rightarrow>
   (error + (number \<times> number \<times> number) option) \<times> 'a VirtualManager" where
  "layoutItem elementLookup width item pen s =
     (let x = fst pen; y = fst (snd pen); height = snd (snd pen);
          key = itemKey s item;
          element = elementLookup key
      in if itemRect s \<noteq> None then
           (case getItemRect s item (Some key) of
              Inl e \<Rightarrow> (Inl e, s)
            | Inr None \<Rightarrow>
                (Inl TypeError,
                 case element of
                   None \<Rightarrow> s
                 | Some i \<Rightarrow> updateStyle i (\<lambda>st. st\<lparr>style_position := ''absolute''\<rparr>) s)
            | Inr (Some rect) \<Rightarrow>
                (Inr (Some (x, y, rect_y rect + rect_height rect)),
                 case element of
                   None \<Rightarrow> s
                 | Some i \<Rightarrow>
                     updateStyle i
                       (\<lambda>st. st\<lparr>style_position := ''absolute'',
                                 style_left := Some (rect_x rect), style_top := Some (rect_y rect),
                                 style_width := Some (rect_width rect),
                                 style_height := Some (rect_height rect)\<rparr>) s))
         else
           (let t = itemType s item;
                (properties, s1) = getItemProperties key t s
            in case classProperties s1 t of
                 None \<Rightarrow> (Inr None, s1)
               | Some classProps \<Rightarrow>
                   (let margin = cssMargin classProps;
                        inline = (cssInline classProps = Some True);
                        elementWidth = rect_width properties + margin_horizontal margin;
                        elementHeight = rect_height properties + margin_vertical margin;
                        newLine = (\<not> inline \<or> x + elementWidth > width);
                        x1 = (if newLine then 0 else x);
                        y1 = (if newLine then height else y);
                        leftPos = x1 + margin_left (containerPadding s1);
                        topPos = y1 + margin_top (containerPadding s1);
                        height1 = max height (y1 + elementHeight);
                        x2 = (if inline then x1 + elementWidth else x1);
                        y2 = (if inline then y1 else y1 + elementHeight);
                        s2 = s1\<lparr>itemProperties := (itemProperties s1)
                                (key \<mapsto> properties\<lparr>rect_x := leftPos, rect_y := topPos\<rparr>)\<rparr>;
                        s3 = (case element of
                                None \<Rightarrow> s2
                              | Some i \<Rightarrow>
                                  updateStyle i
                                    (\<lambda>st. (if inline then (\<lambda>st'. st')
                                            else (\<lambda>st'. st'\<lparr>style_width :=
                                                     Some (width - margin_horizontal margin)\<rparr>))
                                           (st\<lparr>style_position := ''absolute'',
                                               style_left := Some leftPos,
                                               style_top := Some topPos\<rparr>)) s2)
                    in (Inr (Some (x2, y2, height1)), s3))))"

fun layoutItems ::
  "(string \<rightharpoonup> nat) \<Rightarrow> number \<Rightarrow> 'a list \<Rightarrow> number \<times> number \<times> number \<Rightarrow> 'a VirtualManager \<Rightarrow>
   (error + number) \<times> 'a VirtualManager" where
  "layoutItems elementLookup width [] pen s = (Inr (snd (snd pen)), s)"
| "layoutItems elementLookup width (item # rest) pen s =
     (case layoutItem elementLookup width item pen s of
        (Inl e, s1) \<Rightarrow> (Inl e, s1)
      | (Inr None, s1) \<Rightarrow> (Inr (snd (snd pen)), s1)
      | (Inr (Some pen1), s1) \<Rightarrow> layoutItems elementLookup width rest pen1 s1)"

definition layoutChildren :: "'a VirtualManager \<Rightarrow> (error + unit) \<times> 'a VirtualManager" where
  "layoutChildren s =
     (case getElementLookupByKey s of
        Inl e \<Rightarrow> (Inl e, s)
      | Inr elementLookup \<Rightarrow>
          (case layoutItems elementLookup
                  (containerWidth s - margin_horizontal (containerPadding s)) (items s) (0, 0, 0) s of
             (Inl e, s1) \<Rightarrow> (Inl e, s1)
           | (Inr height, s1) \<Rightarrow>
               (Inr (), (correctForScrollAnchor s1)\<lparr>placeholder_height := Some height\<rparr>)))"

subsection \<open>One pass: \<^verbatim>\<open>updateAndLayout\<close>\<close>

definition updateAndLayout ::
  "stableArray \<Rightarrow> bool \<Rightarrow> 'a VirtualManager \<Rightarrow> (error + unit) \<times> 'a VirtualManager" where
  "updateAndLayout getStableArray forceLayout s =
     (case updateIndexes getStableArray (s\<lparr>isScrolling := True\<rparr>) of
        (Inl e, s1) \<Rightarrow> (Inl e, s1)
      | (Inr needsLayout, s1) \<Rightarrow>
          (let s2 = ensureElementsObservedAndSized s1
           in if needsLayout = Some True \<or> forceLayout then
                (case layoutChildren s2 of
                   (Inl e, s3) \<Rightarrow> (Inl e, s3)
                 | (Inr u, s3) \<Rightarrow> (Inr (), s3\<lparr>isScrolling := False\<rparr>))
              else (Inr (), s2\<lparr>isScrolling := False\<rparr>)))"

subsection \<open>The entry points: \<^verbatim>\<open>update\<close>, \<^verbatim>\<open>onresize\<close>, \<^verbatim>\<open>scrollToItem\<close>\<close>

text \<open>
  The properties the host passes to the constructor and to \<^verbatim>\<open>update\<close>. The
  \<^verbatim>\<open>setRenderKeys\<close> callback is the one whose calls the state records. Of these
  \<^verbatim>\<open>update\<close> reads the items and the render keys only.
\<close>

record 'a ContainerProperties =
  props_container :: Container
  props_items :: "'a list"
  props_itemKey :: "'a \<Rightarrow> string"
  props_itemType :: "'a \<Rightarrow> string"
  props_itemRect :: "('a \<Rightarrow> RectInput option) option"
  props_renderKeys :: "string list"

text \<open>
  The duplicate check of \<^verbatim>\<open>update\<close>: the loop over the items, with the set
  \<^verbatim>\<open>checkForDuplicates\<close> and the item lookup it fills. It stops at the first key seen
  twice, with the lookup as filled so far.
\<close>

fun registerItems ::
  "('a \<Rightarrow> string) \<Rightarrow> 'a list \<Rightarrow> string list \<Rightarrow> (string \<rightharpoonup> 'a) \<Rightarrow>
   (error + unit) \<times> (string \<rightharpoonup> 'a)" where
  "registerItems keyOf [] checkForDuplicates lookup = (Inr (), lookup)"
| "registerItems keyOf (item # rest) checkForDuplicates lookup =
     (let key = keyOf item
      in if key \<in> set checkForDuplicates then (Inl (DuplicateKey key), lookup)
         else registerItems keyOf rest (Set_add key checkForDuplicates) (lookup(key \<mapsto> item)))"

definition update ::
  "stableArray \<Rightarrow> 'a ContainerProperties \<Rightarrow> 'a VirtualManager \<Rightarrow>
   (error + string list) \<times> 'a VirtualManager" where
  "update getStableArray props s =
     (let s1 = s\<lparr>items := props_items props, renderKeys := props_renderKeys props\<rparr>
      in if \<not> isScrolling s1 then
           (case registerItems (itemKey s1) (items s1) [] (itemLookup s1) of
              (Inl e, lookup) \<Rightarrow> (Inl e, s1\<lparr>itemLookup := lookup\<rparr>)
            | (Inr u, lookup) \<Rightarrow>
                (case updateAndLayout getStableArray True (s1\<lparr>itemLookup := lookup\<rparr>) of
                   (Inl e, s2) \<Rightarrow> (Inl e, s2)
                 | (Inr u', s2) \<Rightarrow> (Inr (renderKeys s2), s2)))
         else (Inr (renderKeys s1), s1))"

datatype ResizeTarget = TargetContainer | TargetElement Node

fun onresizeEntry :: "ResizeTarget \<Rightarrow> 'a VirtualManager \<Rightarrow> 'a VirtualManager" where
  "onresizeEntry TargetContainer s =
     s\<lparr>containerWidth := clientWidth (container s),
       classProperties := (\<lambda>t. map_option invalidate (classProperties s t)),
       placeholder_height := Some 0,
       itemProperties :=
         (\<lambda>key. map_option (\<lambda>p. p\<lparr>rect_width := 0, rect_height := 0\<rparr>) (itemProperties s key))\<rparr>"
| "onresizeEntry (TargetElement element) s = onElementSized False element s"

definition onresize ::
  "stableArray \<Rightarrow> ResizeTarget list \<Rightarrow> 'a VirtualManager \<Rightarrow> (error + unit) \<times> 'a VirtualManager" where
  "onresize getStableArray entries s = updateAndLayout getStableArray True (fold onresizeEntry entries s)"

text \<open>
  The constructor: the field initialisers, the placeholder element appended to the
  container, and the first \<^verbatim>\<open>update\<close>. \<^verbatim>\<open>items\<close> and \<^verbatim>\<open>renderKeys\<close> are
  unassigned until that \<^verbatim>\<open>update\<close> assigns them; the model starts them empty. The
  second argument is the environment's \<^verbatim>\<open>document.activeElement\<close> chain.
\<close>

definition placeholderNode :: Node where
  "placeholderNode =
     \<lparr>nodeType = 1, dataset_key = None, dataset_type = None, offsetWidth = 0, offsetHeight = 0,
      computed_display = ''block'', computed_margin = Margin_zero,
      computed_padding = Margin_zero,
      style = \<lparr>style_position = [], style_left = None, style_top = None, style_width = None,
                style_height = None, style_display = []\<rparr>\<rparr>"

definition initialState :: "'a ContainerProperties \<Rightarrow> Node list \<Rightarrow> 'a VirtualManager" where
  "initialState props active =
     \<lparr>container = (props_container props)
         \<lparr>children := children (props_container props) @ [placeholderNode]\<rparr>,
      activeElement = active,
      items = [],
      itemLookup = Map.empty,
      itemKey = props_itemKey props,
      itemType = props_itemType props,
      itemRect = props_itemRect props,
      renderKeys = [],
      setRenderKeysCalls = [],
      itemProperties = Map.empty,
      classProperties = Map.empty,
      containerPadding = Margin_zero,
      placeholder_height = None,
      containerWidth = clientWidth (props_container props),
      scrollAnchor = None,
      isScrolling = False,
      lastScrollTop = 0,
      scrollDirection = 0,
      previousItems = None\<rparr>"

definition VirtualManager_new ::
  "stableArray \<Rightarrow> 'a ContainerProperties \<Rightarrow> Node list \<Rightarrow>
   (error + string list) \<times> 'a VirtualManager" where
  "VirtualManager_new getStableArray props active =
     update getStableArray props (initialState props active)"



subsection \<open>The reconciler\<close>

definition reconcile ::
  "string list \<Rightarrow> string list \<Rightarrow> string list \<Rightarrow> (string \<Rightarrow> string option) \<Rightarrow> string list" where
  \<comment> \<open>Modelled from the spec: \<^verbatim>\<open>getStableArray\<close>, whose module is not under \<^verbatim>\<open>src/\<close>.
      The contract \<^verbatim>\<open>reconcile(previousOrderedKeys, desiredKeySet, existingKeySet, kindOf)\<close>:
      previously rendered keys keep their relative order and are retained while their items
      exist in the data, desired or not; newly desired keys are appended; keys of items that
      no longer exist in the data are dropped. The contract says nothing of how the kind
      lookup is used.\<close>
  "reconcile previousKeys desiredKeys existingKeys kindOf =
     filter (\<lambda>key. key \<in> set existingKeys)
       (previousKeys @ filter (\<lambda>key. key \<notin> set previousKeys) desiredKeys)"

definition reconcileFor :: "'a VirtualManager \<Rightarrow> stableArray" where
  \<comment> \<open>the reconciler as \<^verbatim>\<open>updateIndexes\<close> calls it, the existing keys being the keys of
      the engine's items\<close>
  "reconcileFor s = (\<lambda>oldKeys desiredKeys getOldType getNewType.
     reconcile oldKeys desiredKeys (map (itemKey s) (items s)) getOldType)"

subsection \<open>Auxiliary definitions for the proofs\<close>

text \<open>The three shapes of an escape sequence of \<^verbatim>\<open>JSON.stringify\<close>.\<close>

datatype escapeKind = Plain | Named char | Hex

definition kindOfChar :: "char \<Rightarrow> escapeKind" where
  "kindOfChar c = (let n = (of_char c :: nat) in
      if n = 34 then Named (CHR 0x22)
      else if n = 92 then Named (CHR 0x5C)
      else if n = 8 then Named CHR ''b''
      else if n = 12 then Named CHR ''f''
      else if n = 10 then Named CHR ''n''
      else if n = 13 then Named CHR ''r''
      else if n = 9 then Named CHR ''t''
      else if n < 32 then Hex else Plain)"

text \<open>
  The test of the item loop of \<^verbatim>\<open>getRenderItemIndices\<close>: the item has a known
  rectangle (the caller's, or its cached properties) and the rectangle passes the window
  test.
\<close>

definition visible :: "'a VirtualManager \<Rightarrow> number \<Rightarrow> number \<Rightarrow> 'a \<Rightarrow> bool" where
  "visible s wtop wbottom item =
     (case getItemRect s item (Some (itemKey s item)) of
        Inl e \<Rightarrow> False
      | Inr rect \<Rightarrow> inWindow wtop wbottom rect)"

text \<open>
  The presize representatives among a list of items: the key of every item that fails
  the test and is the first such item of its kind, the kinds in \<open>seen\<close> being taken
  already.
\<close>

definition firstOfKind ::
  "'a VirtualManager \<Rightarrow> number \<Rightarrow> number \<Rightarrow> 'a list \<Rightarrow> string set \<Rightarrow> string set" where
  "firstOfKind s wtop wbottom xs seen =
     {itemKey s x | x pre post. xs = pre @ x # post \<and> \<not> visible s wtop wbottom x
        \<and> itemType s x \<notin> seen
        \<and> (\<forall>y\<in>set pre. \<not> visible s wtop wbottom y \<longrightarrow> itemType s y \<noteq> itemType s x)}"

subsection \<open>Example engines\<close>

text \<open>
  The example items are pairs of a key and a kind. The example engine is attached to a
  container 300 wide and 400 high, scrolled to offset 100, under flow layout.
\<close>

definition exampleContainer :: Container where
  "exampleContainer =
     \<lparr>scrollTop = 100, scrollHeight = 2000, clientHeight = 400, clientWidth = 300,
      children = [], scrollToCalls = []\<rparr>"

definition exampleProps :: "(string \<times> string) ContainerProperties" where
  "exampleProps =
     \<lparr>props_container = exampleContainer, props_items = [], props_itemKey = fst,
      props_itemType = snd, props_itemRect = None, props_renderKeys = []\<rparr>"

definition exampleEngine :: "(string \<times> string) VirtualManager" where
  "exampleEngine = initialState exampleProps []"


text \<open>
  An engine under manual layout, with the viewport at offset 0: two items, \<open>a\<close> at
  the top and \<open>b\<close> at a given offset, both rendered after the placeholder, and a
  given sequence of render keys.
\<close>

definition elementFor :: "string \<Rightarrow> string \<Rightarrow> Node" where
  \<comment> \<open>an element the host rendered for a key and a kind, 100 wide and 50 high\<close>
  "elementFor key t =
     placeholderNode\<lparr>dataset_key := Some key, dataset_type := Some t,
                     offsetWidth := 100, offsetHeight := 50\<rparr>"

definition manualRect :: "number \<Rightarrow> string \<times> string \<Rightarrow> RectInput option" where
  "manualRect yb item =
     Some \<lparr>in_x = Some 0, in_y = Some (if fst item = ''a'' then 0 else yb),
           in_width = Some 100, in_height = Some 50\<rparr>"

definition manualEngine :: "number \<Rightarrow> string list \<Rightarrow> (string \<times> string) VirtualManager" where
  "manualEngine yb keys =
     exampleEngine
       \<lparr>container := exampleContainer
          \<lparr>scrollTop := 0,
           children := [placeholderNode, elementFor ''a'' ''tile'', elementFor ''b'' ''tile'']\<rparr>,
        items := [(''a'', ''tile''), (''b'', ''tile'')],
        itemLookup := [''a'' \<mapsto> (''a'', ''tile''), ''b'' \<mapsto> (''b'', ''tile'')],
        itemRect := Some (manualRect yb),
        renderKeys := keys\<rparr>"

text \<open>
  The rows scenario: \<open>n\<close> items, the item of index \<open>i\<close> being the number \<open>i\<close>,
  each 50 high and laid out by the caller from \<open>y = 0\<close> down, in a viewport 400 high
  scrolled to offset 1000; the key and the kind of an item are given by two functions.
\<close>

definition rowsRect :: "nat \<Rightarrow> RectInput option" where
  "rowsRect i =
     Some \<lparr>in_x = Some 0, in_y = Some (50 * of_nat i), in_width = Some 300, in_height = Some 50\<rparr>"

definition rowsEngine :: "nat \<Rightarrow> (nat \<Rightarrow> string) \<Rightarrow> (nat \<Rightarrow> string) \<Rightarrow> nat VirtualManager" where
  "rowsEngine n keyOf kindOf =
     (initialState
        \<lparr>props_container = exampleContainer\<lparr>scrollTop := 1000\<rparr>, props_items = [],
         props_itemKey = keyOf, props_itemType = kindOf, props_itemRect = Some rowsRect,
         props_renderKeys = []\<rparr> [])
       \<lparr>items := [0..<n]\<rparr>"

text \<open>Decimal numerals as keys.\<close>

fun decimal :: "nat \<Rightarrow> string" where
  "decimal n =
     (if n < 10 then [char_of (48 + n)] else decimal (n div 10) @ [char_of (48 + n mod 10)])"

text \<open>
  The same rows under flow layout: 40 items of one kind, keyed by their decimal index,
  every one measured and cached at its position.
\<close>

definition rowsFlowEngine :: "nat VirtualManager" where
  "rowsFlowEngine =
     (rowsEngine 40 decimal (\<lambda>i. ''row''))
       \<lparr>itemRect := None,
        itemProperties :=
          map_of (map (\<lambda>i. (decimal i,
                              \<lparr>rect_x = 0, rect_y = 50 * of_nat i, rect_width = 300,
                               rect_height = 50, ip_type = ''row''\<rparr>)) [0..<40])\<rparr>"

text \<open>
  The flow scenario: a container of content width 300, a block kind \<open>header\<close> 40 high
  with an estimated width \<open>hw\<close>, an inline kind \<open>tile\<close> of \<open>100 \<times> 50\<close>, both with
  zero margins, and the sequence of a header and five tiles, none measured individually,
  each with an element after the placeholder.
\<close>

definition flowClass :: "string \<Rightarrow> bool \<Rightarrow> number \<Rightarrow> number \<Rightarrow> ClassProperties" where
  "flowClass t inline w h =
     (ClassProperties_new t)\<lparr>cssInline := Some inline, cp_width := w, cp_height := h,
        totalItemWidth := w, totalItemHeight := h, totalItemCount := 1\<rparr>"

definition flowEngine :: "number \<Rightarrow> (string \<times> string) VirtualManager" where
  "flowEngine hw =
     exampleEngine
       \<lparr>container := exampleContainer
          \<lparr>children := [placeholderNode, elementFor ''h'' ''header'',
                         elementFor ''t1'' ''tile'', elementFor ''t2'' ''tile'',
                         elementFor ''t3'' ''tile'', elementFor ''t4'' ''tile'',
                         elementFor ''t5'' ''tile'']\<rparr>,
        items := [(''h'', ''header''), (''t1'', ''tile''), (''t2'', ''tile''),
                  (''t3'', ''tile''), (''t4'', ''tile''), (''t5'', ''tile'')],
        classProperties := [''header'' \<mapsto> flowClass ''header'' False hw 40,
                            ''tile'' \<mapsto> flowClass ''tile'' True 100 50]\<rparr>"

text \<open>
  An engine whose host rendered, after the placeholder, an element that carries no data
  key; and properties whose two items share the key \<open>a\<close>.
\<close>

definition strayEngine :: "(string \<times> string) VirtualManager" where
  "strayEngine =
     exampleEngine
       \<lparr>container := exampleContainer\<lparr>children := [placeholderNode, placeholderNode]\<rparr>\<rparr>"

definition itemsProps :: "(string \<times> string) list \<Rightarrow> (string \<times> string) ContainerProperties" where
  "itemsProps xs = exampleProps\<lparr>props_items := xs\<rparr>"

definition passDesired :: stableArray where
  \<comment> \<open>a reconciler for the examples: it returns the desired keys\<close>
  "passDesired oldKeys desiredKeys getOldType getNewType = desiredKeys"

section \<open>The size estimator\<close>

lemma Math_round_divide_int:
  "b \<noteq> 0 \<Longrightarrow> Math_round (of_int a / of_int b) = of_int ((2 * a + b) div (2 * b))"
proof -
  assume b: "b \<noteq> 0"
  then have "(of_int a / of_int b + 1 / 2 :: rat) = of_int (2 * a + b) / of_int (2 * b)"
    by (simp add: field_simps)
  then show ?thesis
    unfolding Math_round_def by (simp only: floor_divide_of_int_eq)
qed

lemma Math_round_of_int: "Math_round (of_int a) = of_int a"
  using Math_round_divide_int[of 1 a] by simp

lemma Math_round_numeral [simp]: "Math_round (numeral a) = numeral a"
  using Math_round_of_int[of "numeral a"] by simp

lemma Math_round_numeral_divide [simp]:
  "Math_round (numeral a / numeral b) = of_int ((2 * numeral a + numeral b) div (2 * numeral b))"
  using Math_round_divide_int[of "numeral b" "numeral a"] by simp

lemma recordSamples_totals:
  "totalItemCount (recordSamples ss cp) = totalItemCount cp + of_nat (length ss) \<and>
   totalItemWidth (recordSamples ss cp) = totalItemWidth cp + sum_list (map fst ss) \<and>
   totalItemHeight (recordSamples ss cp) = totalItemHeight cp + sum_list (map snd ss)"
  by (induction ss cp rule: recordSamples.induct) (simp_all add: setItemSize_def Let_def)

lemma recordSamples_append:
  "recordSamples (ss @ [(w, h)]) cp = setItemSize w h (recordSamples ss cp)"
  by (induction ss cp rule: recordSamples.induct) simp_all

lemma recordSamples_average:
  assumes "ss \<noteq> []"
  shows "cp_width (recordSamples ss cp) =
           Math_round ((totalItemWidth cp + sum_list (map fst ss))
                        / (totalItemCount cp + of_nat (length ss)))
       \<and> cp_height (recordSamples ss cp) =
           Math_round ((totalItemHeight cp + sum_list (map snd ss))
                        / (totalItemCount cp + of_nat (length ss)))"
proof -
  from assms obtain init w h where ss: "ss = init @ [(w, h)]"
    by (metis rev_exhaust surj_pair)
  show ?thesis
    unfolding ss recordSamples_append
    by (simp add: setItemSize_def Let_def recordSamples_totals ac_simps)
qed

text \<open>
  C6, as amended. \<^verbatim>\<open>invalidate\<close> resets the sample count and the two running totals
  to zero and clears \<^verbatim>\<open>valid\<close>; it leaves the stored averages \<^verbatim>\<open>width\<close> and
  \<^verbatim>\<open>height\<close> (the estimate \<^verbatim>\<open>getItemProperties\<close> seeds new items with) as they
  were, together with the margin, the inline flag and the kind's name; and a container
  resize, which invalidates every kind, deletes no kind record.
\<close>

theorem invalidate_keeps_estimate:
  "cp_width (invalidate cp) = cp_width cp \<and> cp_height (invalidate cp) = cp_height cp
   \<and> cssMargin (invalidate cp) = cssMargin cp \<and> cssInline (invalidate cp) = cssInline cp
   \<and> cp_type (invalidate cp) = cp_type cp
   \<and> totalItemCount (invalidate cp) = 0 \<and> totalItemWidth (invalidate cp) = 0
   \<and> totalItemHeight (invalidate cp) = 0 \<and> valid (invalidate cp) = False
   \<and> dom (classProperties (onresizeEntry TargetContainer s)) = dom (classProperties s)"
  by (auto simp add: invalidate_def dom_def)

text \<open>
  C6 as the claim states it fails: after one sample of \<open>100 \<times> 50\<close> and an
  invalidation the estimate of the kind is still \<open>100 \<times> 50\<close>, not zero.
\<close>

theorem invalidate_estimate_counterexample:
  "\<not> (cp_width (invalidate (setItemSize 100 50 (ClassProperties_new ''tile''))) = 0
      \<and> cp_height (invalidate (setItemSize 100 50 (ClassProperties_new ''tile''))) = 0)"
  by (simp add: invalidate_def setItemSize_def ClassProperties_new_def)

text \<open>
  C7. Starting from a kind with no samples (a new one, or one just invalidated), after
  each of the \<open>n\<close> calls of \<^verbatim>\<open>setItemSize\<close> that record the samples
  \<open>(w\<^sub>1, h\<^sub>1), \<dots>, (w\<^sub>n, h\<^sub>n)\<close> the stored width is the mean of the \<open>w\<^sub>i\<close> rounded by
  \<^verbatim>\<open>Math.round\<close>, and the stored height the rounded mean of the \<open>h\<^sub>i\<close>.
\<close>

theorem setItemSize_mean:
  assumes "totalItemCount cp = 0" and "totalItemWidth cp = 0" and "totalItemHeight cp = 0"
    and "0 < n" and "n \<le> length samples"
  shows "cp_width (recordSamples (take n samples) cp) =
           Math_round (sum_list (map fst (take n samples)) / of_nat n)
       \<and> cp_height (recordSamples (take n samples) cp) =
           Math_round (sum_list (map snd (take n samples)) / of_nat n)"
proof -
  have "take n samples \<noteq> []" using assms(4,5) by auto
  from recordSamples_average[OF this, of cp] assms show ?thesis by (simp add: min_def)
qed

theorem setItemSize_mean_witness:
  "cp_width (recordSamples (take 2 [(100, 50), (101, 51), (7, 7)])
      (invalidate (setItemSize 3 4 (ClassProperties_new ''tile'')))) = 101
   \<and> cp_height (recordSamples (take 2 [(100, 50), (101, 51), (7, 7)])
      (invalidate (setItemSize 3 4 (ClassProperties_new ''tile'')))) = 51"
proof -
  let ?cp = "invalidate (setItemSize 3 4 (ClassProperties_new ''tile''))"
  have zero: "totalItemCount ?cp = 0" "totalItemWidth ?cp = 0" "totalItemHeight ?cp = 0"
    by (simp_all add: invalidate_def)
  have n: "0 < (2::nat)" "2 \<le> length [(100::rat, 50::rat), (101, 51), (7, 7)]"
    by simp_all
  have "take 2 [(100::rat, 50::rat), (101, 51), (7, 7)] = [(100, 50), (101, 51)]"
    by simp
  with setItemSize_mean[OF zero n] show ?thesis
    by simp
qed

section \<open>The scroll anchor corrector\<close>



section \<open>The deep comparison of key sequences\<close>

text \<open>
  \<^verbatim>\<open>JSON.stringify\<close> is injective on arrays of strings: each escape sequence determines
  its character and no escape sequence starts another, a quoted string ends at its first
  unescaped quote, and the quoted strings are read off one by one.
\<close>

lemma hexDigit_inj:
  assumes "n < 16" "m < 16" "hexDigit n = hexDigit m"
  shows "n = m"
proof -
  have "of_char (hexDigit n) = (if n < 10 then 48 + n else 87 + n)" if "n < 16" for n
    using that by (simp add: hexDigit_def)
  with assms have "(if n < 10 then 48 + n else 87 + n) = (if m < 10 then 48 + m else 87 + m)"
    by metis
  with assms(1,2) show ?thesis by (auto split: if_splits)
qed

lemma hexDigit_eq_iff: "n < 32 \<Longrightarrow> m < 32 \<Longrightarrow>
  hexDigit (n div 16) = hexDigit (m div 16) \<Longrightarrow> hexDigit (n mod 16) = hexDigit (m mod 16) \<Longrightarrow> n = m"
proof -
  assume a: "n < 32" "m < 32" "hexDigit (n div 16) = hexDigit (m div 16)"
    "hexDigit (n mod 16) = hexDigit (m mod 16)"
  have "n div 16 = m div 16" using a by (intro hexDigit_inj) auto
  moreover have "n mod 16 = m mod 16" using a by (intro hexDigit_inj) auto
  ultimately show "n = m" by (metis div_mult_mod_eq)
qed

lemma of_char_same: "(of_char c :: nat) = n \<Longrightarrow> of_char d = n \<Longrightarrow> c = d"
  by (rule of_char_eqI[where ?'a = nat]) simp

lemma jsonEscape_shape:
  "jsonEscape c =
     (case kindOfChar c of
        Plain \<Rightarrow> [c]
      | Named x \<Rightarrow> [CHR 0x5C, x]
      | Hex \<Rightarrow> [CHR 0x5C, CHR ''u'', CHR ''0'', CHR ''0'',
                 hexDigit (of_char c div 16), hexDigit (of_char c mod 16)])"
  by (simp add: jsonEscape_def kindOfChar_def Let_def)

lemma kind_Plain: "kindOfChar c = Plain \<Longrightarrow> c \<noteq> CHR 0x5C \<and> c \<noteq> CHR 0x22"
  by (auto simp add: kindOfChar_def Let_def split: if_splits)

lemma kind_Named: "kindOfChar c = Named x \<Longrightarrow> kindOfChar d = Named x \<Longrightarrow> c = d"
  by (auto simp add: kindOfChar_def Let_def split: if_splits dest: of_char_same)

lemma kind_Named_not_u: "kindOfChar c = Named x \<Longrightarrow> x \<noteq> CHR ''u''"
  by (auto simp add: kindOfChar_def Let_def split: if_splits)

lemma kind_Hex: "kindOfChar c = Hex \<Longrightarrow> (of_char c :: nat) < 32"
  by (auto simp add: kindOfChar_def Let_def split: if_splits)

lemma jsonEscape_prefix_free:
  assumes "jsonEscape c @ r = jsonEscape d @ r'"
  shows "c = d \<and> r = r'"
proof (cases "kindOfChar c"; cases "kindOfChar d")
  fix x y assume "kindOfChar c = Named x" "kindOfChar d = Named y"
  with assms kind_Named[of c x d] show ?thesis by (simp add: jsonEscape_shape)
next
  assume k: "kindOfChar c = Hex" "kindOfChar d = Hex"
  with assms have "hexDigit (of_char c div 16) = hexDigit (of_char d div 16)"
    "hexDigit (of_char c mod 16) = hexDigit (of_char d mod 16)" "r = r'"
    by (simp_all add: jsonEscape_shape)
  with hexDigit_eq_iff[OF kind_Hex[OF k(1)] kind_Hex[OF k(2)]] have "(of_char c :: nat) = of_char d" by simp
  with \<open>r = r'\<close> show ?thesis by (simp add: of_char_same)
qed (use assms kind_Plain[of c] kind_Plain[of d] kind_Named_not_u[of c] kind_Named_not_u[of d]
     in \<open>auto simp add: jsonEscape_shape\<close>)

lemma jsonEscape_start: "\<exists>a as. jsonEscape c = a # as \<and> a \<noteq> CHR 0x22"
  unfolding jsonEscape_def Let_def by auto

lemma escaped_inj:
  "concat (map jsonEscape k) @ CHR 0x22 # r = concat (map jsonEscape k') @ CHR 0x22 # r'
   \<Longrightarrow> k = k' \<and> r = r'"
proof (induction k arbitrary: k')
  case Nil
  show ?case
  proof (cases k')
    case Nil
    with Nil.prems show ?thesis by simp
  next
    case (Cons d ds)
    obtain a as where "jsonEscape d = a # as" "a \<noteq> CHR 0x22"
      using jsonEscape_start by blast
    with Nil.prems Cons show ?thesis by simp
  qed
next
  case (Cons c cs)
  show ?case
  proof (cases k')
    case Nil
    obtain a as where "jsonEscape c = a # as" "a \<noteq> CHR 0x22"
      using jsonEscape_start by blast
    with Cons.prems Nil show ?thesis by simp
  next
    case (Cons d ds)
    with Cons.prems have
      "jsonEscape c @ (concat (map jsonEscape cs) @ CHR 0x22 # r)
       = jsonEscape d @ (concat (map jsonEscape ds) @ CHR 0x22 # r')"
      by simp
    from jsonEscape_prefix_free[OF this] Cons.IH[of ds] Cons show ?thesis by simp
  qed
qed

lemma jsonQuote_inj: "jsonQuote k @ r = jsonQuote k' @ r' \<Longrightarrow> k = k' \<and> r = r'"
  using escaped_inj[of k r k' r'] by (simp add: jsonQuote_def)

lemma jsonJoin_Cons:
  "jsonJoin (k # ks) = jsonQuote k @ (if ks = [] then [] else CHR '','' # jsonJoin ks)"
  by (cases ks) simp_all

lemma jsonJoin_inj:
  "length ks = length ks' \<Longrightarrow> jsonJoin ks @ r = jsonJoin ks' @ r' \<Longrightarrow> ks = ks'"
proof (induction ks ks' rule: list_induct2)
  case Nil
  then show ?case by simp
next
  case (Cons k ks k' ks')
  from Cons.prems have
    "jsonQuote k @ ((if ks = [] then [] else CHR '','' # jsonJoin ks) @ r)
     = jsonQuote k' @ ((if ks' = [] then [] else CHR '','' # jsonJoin ks') @ r')"
    by (simp only: jsonJoin_Cons append_assoc)
  from jsonQuote_inj[OF this] have k: "k = k'"
    and rest: "(if ks = [] then [] else CHR '','' # jsonJoin ks) @ r
             = (if ks' = [] then [] else CHR '','' # jsonJoin ks') @ r'"
    by simp_all
  show ?case
  proof (cases "ks = []")
    case True
    with Cons.hyps k show ?thesis by simp
  next
    case False
    with Cons.hyps have "ks' \<noteq> []" by auto
    with False rest have "jsonJoin ks @ r = jsonJoin ks' @ r'" by simp
    with Cons.IH k show ?thesis by simp
  qed
qed

lemma JSON_stringify_inj:
  "length ks = length ks' \<Longrightarrow> JSON_stringify ks = JSON_stringify ks' \<Longrightarrow> ks = ks'"
  using jsonJoin_inj[of ks ks' "[CHR '']'']" "[CHR '']'']"] by (simp add: JSON_stringify_def)

lemma deep_compare:
  "(length oldKeys \<noteq> length newKeys \<or> JSON_stringify oldKeys \<noteq> JSON_stringify newKeys)
   = (oldKeys \<noteq> newKeys)"
  using JSON_stringify_inj[of oldKeys newKeys] by auto

section \<open>The reconciliation pass\<close>

lemma updateStyle_frame [simp]:
  "renderKeys (updateStyle i f s) = renderKeys s"
  "setRenderKeysCalls (updateStyle i f s) = setRenderKeysCalls s"
  "items (updateStyle i f s) = items s"
  "itemKey (updateStyle i f s) = itemKey s"
  by (simp_all add: updateStyle_def)

lemma setDisplays_frame [simp]:
  "renderKeys (setDisplays lookup existing keys s) = renderKeys s"
  "setRenderKeysCalls (setDisplays lookup existing keys s) = setRenderKeysCalls s"
  by (induction keys arbitrary: s; simp add: Let_def split: option.split)+

lemma trackScroll_eq:
  "trackScroll s =
     (let clipped = max 0 (min (scrollTop (container s))
                               (scrollHeight (container s) - clientHeight (container s)))
      in s\<lparr>container := (container s)\<lparr>scrollTop := clipped\<rparr>,
           lastScrollTop := clipped,
           previousItems := Some (items s),
           scrollDirection :=
             (if length (items s) \<noteq> length (case previousItems s of None \<Rightarrow> items s | Some p \<Rightarrow> p)
              then 0
              else if clipped - lastScrollTop s \<noteq> 0 then Math_sign (clipped - lastScrollTop s)
              else scrollDirection s)\<rparr>)"
proof -
  define clipped where "clipped = max 0 (min (scrollTop (container s))
                               (scrollHeight (container s) - clientHeight (container s)))"
  have s1: "(if scrollTop (container s) \<noteq> clipped
             then s\<lparr>container := (container s)\<lparr>scrollTop := clipped\<rparr>\<rparr> else s)
            = s\<lparr>container := (container s)\<lparr>scrollTop := clipped\<rparr>\<rparr>"
    by (cases "scrollTop (container s) = clipped") simp_all
  show ?thesis
    unfolding trackScroll_def Let_def clipped_def[symmetric] s1
    by (simp split: option.split)
qed

lemma trackScroll_frame [simp]:
  "renderKeys (trackScroll s) = renderKeys s"
  "setRenderKeysCalls (trackScroll s) = setRenderKeysCalls s"
  "items (trackScroll s) = items s"
  "itemKey (trackScroll s) = itemKey s"
  "itemType (trackScroll s) = itemType s"
  "itemRect (trackScroll s) = itemRect s"
  "itemLookup (trackScroll s) = itemLookup s"
  "itemProperties (trackScroll s) = itemProperties s"
  "activeElement (trackScroll s) = activeElement s"
  "children (container (trackScroll s)) = children (container s)"
  "clientHeight (container (trackScroll s)) = clientHeight (container s)"
  unfolding trackScroll_eq Let_def by simp_all

lemma updateIndexes_completed:
  assumes "pageSize s \<noteq> 0"
    and "getRenderItemIndices (scrollDirection (trackScroll s)) (trackScroll s)
           = Inr (desiredKeys, existingKeys)"
    and "getElementLookupByKey (trackScroll s) = Inr elementLookup"
    and "newKeys = getStableArray (renderKeys s) desiredKeys
                     (getType (trackScroll s)) (getType (trackScroll s))"
    and "s2 = setDisplays elementLookup existingKeys newKeys (trackScroll s)"
  shows "updateIndexes getStableArray s =
           (if newKeys = renderKeys s then (Inr (Some False), s2)
            else (Inr (Some True), s2\<lparr>setRenderKeysCalls := setRenderKeysCalls s2 @ [newKeys]\<rparr>))"
proof -
  have cmp: "(length (renderKeys s) \<noteq> length newKeys
               \<or> JSON_stringify (renderKeys s) \<noteq> JSON_stringify newKeys) = (newKeys \<noteq> renderKeys s)"
    using deep_compare[of "renderKeys s" newKeys] by auto
  show ?thesis
    unfolding updateIndexes_def Let_def assms(5) assms(4)
    using assms(1) cmp[unfolded assms(4)]
    by (simp add: assms(2,3))
qed

text \<open>
  C8. In a pass that reaches the comparison (the viewport has a height and neither the
  visibility calculator nor the element lookup throws), with \<open>newKeys\<close> the sequence
  the reconciler returns for the previous sequence \<^verbatim>\<open>renderKeys\<close>: the host's
  \<^verbatim>\<open>setRenderKeys\<close> callback is called, once and with \<open>newKeys\<close>, if and only if
  \<open>newKeys\<close> differs from the previous sequence as a value; and \<^verbatim>\<open>updateIndexes\<close>
  returns whether it differs. This holds for every reconciler.
\<close>

theorem updateIndexes_setRenderKeys:
  assumes "pageSize s \<noteq> 0"
    and "getRenderItemIndices (scrollDirection (trackScroll s)) (trackScroll s)
           = Inr (desiredKeys, existingKeys)"
    and "getElementLookupByKey (trackScroll s) = Inr elementLookup"
  shows "let newKeys = getStableArray (renderKeys s) desiredKeys
                         (getType (trackScroll s)) (getType (trackScroll s))
         in setRenderKeysCalls (snd (updateIndexes getStableArray s))
              = setRenderKeysCalls s @ (if newKeys = renderKeys s then [] else [newKeys])
          \<and> fst (updateIndexes getStableArray s) = Inr (Some (newKeys \<noteq> renderKeys s))"
  unfolding Let_def
  by (simp add: updateIndexes_completed[OF assms refl refl])

text \<open>A pass that stops before the comparison does not call the callback.\<close>

lemma updateIndexes_aborted:
  assumes "pageSize s = 0 \<or> fst (updateIndexes getStableArray s) = Inl e"
  shows "setRenderKeysCalls (snd (updateIndexes getStableArray s)) = setRenderKeysCalls s"
proof (cases "pageSize s = 0")
  case True
  then show ?thesis by (simp add: updateIndexes_def)
next
  case False
  with assms have a: "fst (updateIndexes getStableArray s) = Inl e" by simp
  show ?thesis
  proof (cases "getRenderItemIndices (scrollDirection (trackScroll s)) (trackScroll s)")
    case (Inl e')
    with False show ?thesis by (simp add: updateIndexes_def Let_def)
  next
    case (Inr p)
    obtain d x where p: "p = (d, x)" by (cases p)
    show ?thesis
    proof (cases "getElementLookupByKey (trackScroll s)")
      case (Inl e')
      with False Inr p show ?thesis by (simp add: updateIndexes_def Let_def)
    next
      case (Inr l)
      from updateIndexes_completed[OF False
          \<open>getRenderItemIndices (scrollDirection (trackScroll s)) (trackScroll s) = Inr p\<close>[unfolded p]
          Inr refl refl, where getStableArray = getStableArray] a
      show ?thesis by (simp split: if_splits)
    qed
  qed
qed

text \<open>The example engine under manual layout, field by field, and the values of its pass.\<close>

lemma manualEngine_fields:
  "container (manualEngine yb keys) = exampleContainer
     \<lparr>scrollTop := 0,
      children := [placeholderNode, elementFor ''a'' ''tile'', elementFor ''b'' ''tile'']\<rparr>"
  "activeElement (manualEngine yb keys) = []"
  "items (manualEngine yb keys) = [(''a'', ''tile''), (''b'', ''tile'')]"
  "itemLookup (manualEngine yb keys) = [''a'' \<mapsto> (''a'', ''tile''), ''b'' \<mapsto> (''b'', ''tile'')]"
  "itemKey (manualEngine yb keys) = fst"
  "itemType (manualEngine yb keys) = snd"
  "itemRect (manualEngine yb keys) = Some (manualRect yb)"
  "renderKeys (manualEngine yb keys) = keys"
  "setRenderKeysCalls (manualEngine yb keys) = []"
  "itemProperties (manualEngine yb keys) = Map.empty"
  "classProperties (manualEngine yb keys) = Map.empty"
  "containerPadding (manualEngine yb keys) = Margin_zero"
  "placeholder_height (manualEngine yb keys) = None"
  "containerWidth (manualEngine yb keys) = 300"
  "scrollAnchor (manualEngine yb keys) = None"
  "isScrolling (manualEngine yb keys) = False"
  "lastScrollTop (manualEngine yb keys) = 0"
  "scrollDirection (manualEngine yb keys) = 0"
  "previousItems (manualEngine yb keys) = None"
  by (simp_all add: manualEngine_def exampleEngine_def initialState_def exampleProps_def
      exampleContainer_def)

lemmas node_defs = exampleContainer_def elementFor_def placeholderNode_def Margin_zero_def

lemma manualEngine_trackScroll:
  "trackScroll (manualEngine yb keys)
     = (manualEngine yb keys)\<lparr>previousItems := Some (items (manualEngine yb keys))\<rparr>"
  by (simp add: trackScroll_def manualEngine_fields exampleContainer_def Let_def)

lemma manualEngine_direction: "scrollDirection (trackScroll (manualEngine yb keys)) = 0"
  by (simp add: manualEngine_trackScroll manualEngine_fields)

lemma manualEngine_elementLookup:
  "getElementLookupByKey (trackScroll (manualEngine yb keys))
     = Inr [''a'' \<mapsto> Suc 0, ''b'' \<mapsto> Suc (Suc 0)]"
  by (simp add: manualEngine_fields getElementLookupByKey_def
      isHTMLElement_def truthy_def node_defs)

lemma manualEngine_far:
  "getRenderItemIndices 0 (trackScroll (manualEngine 5000 keys)) = Inr ([''a''], [''a'', ''b''])"
  by (simp add: manualEngine_trackScroll manualEngine_fields getRenderItemIndices_def
      renderWindow_def pageSize_def prerenderOtherDirection_def prerenderScrollDirection_def
      isManualLayout_def getItemRect_def inWindow_def Set_add_def getFocusedItemKey_def
      truthy_def manualRect_def node_defs Let_def)

lemma manualEngine_pageSize: "pageSize (manualEngine yb keys) \<noteq> 0"
  by (simp add: pageSize_def manualEngine_fields exampleContainer_def)

theorem updateIndexes_setRenderKeys_witness:
  "setRenderKeysCalls (snd (updateIndexes (\<lambda>oldKeys desiredKeys getOldType getNewType. desiredKeys)
       (manualEngine 5000 [''a'', ''b'']))) = [[''a'']]
   \<and> fst (updateIndexes (\<lambda>oldKeys desiredKeys getOldType getNewType. desiredKeys)
       (manualEngine 5000 [''a'', ''b''])) = Inr (Some True)
   \<and> setRenderKeysCalls (snd (updateIndexes (\<lambda>oldKeys desiredKeys getOldType getNewType. desiredKeys)
       (manualEngine 5000 [''a'']))) = []
   \<and> fst (updateIndexes (\<lambda>oldKeys desiredKeys getOldType getNewType. desiredKeys)
       (manualEngine 5000 [''a''])) = Inr (Some False)"
proof -
  have d: "getRenderItemIndices (scrollDirection (trackScroll (manualEngine 5000 keys)))
             (trackScroll (manualEngine 5000 keys)) = Inr ([''a''], [''a'', ''b''])" for keys
    by (simp only: manualEngine_direction manualEngine_far)
  note two = updateIndexes_setRenderKeys[OF manualEngine_pageSize[of 5000 "[''a'', ''b'']"]
      d[of "[''a'', ''b'']"] manualEngine_elementLookup[of 5000 "[''a'', ''b'']"],
      where getStableArray = "\<lambda>oldKeys desiredKeys getOldType getNewType. desiredKeys"]
  note one = updateIndexes_setRenderKeys[OF manualEngine_pageSize[of 5000 "[''a'']"]
      d[of "[''a'']"] manualEngine_elementLookup[of 5000 "[''a'']"],
      where getStableArray = "\<lambda>oldKeys desiredKeys getOldType getNewType. desiredKeys"]
  from one two show ?thesis
    by (simp add: Let_def manualEngine_fields)
qed


section \<open>The visibility calculator\<close>

lemma set_Set_add [simp]: "set (Set_add k ks) = insert k (set ks)"
  by (auto simp add: Set_add_def)

lemma set_Set_addAll [simp]: "set (Set_addAll xs ks) = set ks \<union> set xs"
  by (induction xs arbitrary: ks) auto

lemma presizeAdd_fst: "fst ` set (presizeAdd t k types) = insert t (fst ` set types)"
  by (auto simp add: presizeAdd_def map_of_eq_None_iff)

lemma presizeAdd_snd:
  "snd ` set (presizeAdd t k types) =
     (if t \<in> fst ` set types then snd ` set types else insert k (snd ` set types))"
  by (auto simp add: presizeAdd_def map_of_eq_None_iff)

lemma scanItems_wanted:
  "scanItems s wtop wbottom xs wanted existing presize = Inr (wanted', existing', presize')
   \<Longrightarrow> set wanted' = set wanted \<union> {itemKey s x | x. x \<in> set xs \<and> visible s wtop wbottom x}"
proof (induction xs arbitrary: wanted existing presize)
  case Nil
  then show ?case by simp
next
  case (Cons x xs)
  from Cons.prems obtain rect where r: "getItemRect s x (Some (itemKey s x)) = Inr rect"
    by (auto simp add: Let_def split: sum.splits)
  show ?case
  proof (cases "inWindow wtop wbottom rect")
    case True
    with Cons.prems r have
      "scanItems s wtop wbottom xs (Set_add (itemKey s x) wanted)
         (Set_add (itemKey s x) existing) presize = Inr (wanted', existing', presize')"
      by (simp add: Let_def)
    from Cons.IH[OF this] True r show ?thesis
      by (auto simp add: visible_def)
  next
    case False
    with Cons.prems r obtain presize1 where
      "scanItems s wtop wbottom xs wanted
         (Set_add (itemKey s x) existing) presize1 = Inr (wanted', existing', presize')"
      by (simp add: Let_def)
    from Cons.IH[OF this] False r show ?thesis
      by (auto simp add: visible_def)
  qed
qed

lemma scanItems_existing:
  "scanItems s wtop wbottom xs wanted existing presize = Inr (wanted', existing', presize')
   \<Longrightarrow> set existing' = set existing \<union> itemKey s ` set xs"
proof (induction xs arbitrary: wanted existing presize)
  case Nil
  then show ?case by simp
next
  case (Cons x xs)
  from Cons.prems obtain wanted1 presize1 where
    "scanItems s wtop wbottom xs wanted1
       (Set_add (itemKey s x) existing) presize1 = Inr (wanted', existing', presize')"
    by (auto simp add: Let_def split: sum.splits if_splits)
  from Cons.IH[OF this] show ?case by auto
qed

lemma scanItems_manual:
  "scanItems s wtop wbottom xs wanted existing None = Inr (wanted', existing', presize')
   \<Longrightarrow> presize' = None"
proof (induction xs arbitrary: wanted existing)
  case Nil
  then show ?case by simp
next
  case (Cons x xs)
  from Cons.prems obtain wanted1 where
    "scanItems s wtop wbottom xs wanted1
       (Set_add (itemKey s x) existing) None = Inr (wanted', existing', presize')"
    by (auto simp add: Let_def split: sum.splits if_splits)
  from Cons.IH[OF this] show ?case .
qed

lemma firstOfKindI:
  "xs = pre @ x # post \<Longrightarrow> \<not> visible s wtop wbottom x \<Longrightarrow> itemType s x \<notin> seen
   \<Longrightarrow> (\<forall>y\<in>set pre. \<not> visible s wtop wbottom y \<longrightarrow> itemType s y \<noteq> itemType s x)
   \<Longrightarrow> itemKey s x \<in> firstOfKind s wtop wbottom xs seen"
  unfolding firstOfKind_def by blast

lemma firstOfKindE:
  assumes "k \<in> firstOfKind s wtop wbottom xs seen"
  obtains x pre post where "xs = pre @ x # post" "k = itemKey s x" "\<not> visible s wtop wbottom x"
    "itemType s x \<notin> seen"
    "\<forall>y\<in>set pre. \<not> visible s wtop wbottom y \<longrightarrow> itemType s y \<noteq> itemType s x"
  using assms unfolding firstOfKind_def by blast

lemma firstOfKind_Nil [simp]: "firstOfKind s wtop wbottom [] seen = {}"
  by (simp add: firstOfKind_def)

lemma firstOfKind_Cons_visible:
  assumes v: "visible s wtop wbottom x"
  shows "firstOfKind s wtop wbottom (x # xs) seen = firstOfKind s wtop wbottom xs seen"
proof (intro set_eqI iffI)
  fix k assume "k \<in> firstOfKind s wtop wbottom (x # xs) seen"
  then obtain x' pre post where d: "x # xs = pre @ x' # post" "k = itemKey s x'"
    "\<not> visible s wtop wbottom x'" "itemType s x' \<notin> seen"
    "\<forall>y\<in>set pre. \<not> visible s wtop wbottom y \<longrightarrow> itemType s y \<noteq> itemType s x'"
    by (rule firstOfKindE)
  show "k \<in> firstOfKind s wtop wbottom xs seen"
  proof (cases pre)
    case Nil
    with d v show ?thesis by simp
  next
    case (Cons p pre')
    with d have "xs = pre' @ x' # post"
      and "\<forall>y\<in>set pre'. \<not> visible s wtop wbottom y \<longrightarrow> itemType s y \<noteq> itemType s x'"
      by simp_all
    from firstOfKindI[OF this(1) d(3,4) this(2)] d(2) show ?thesis by simp
  qed
next
  fix k assume "k \<in> firstOfKind s wtop wbottom xs seen"
  then obtain x' pre post where d: "xs = pre @ x' # post" "k = itemKey s x'"
    "\<not> visible s wtop wbottom x'" "itemType s x' \<notin> seen"
    "\<forall>y\<in>set pre. \<not> visible s wtop wbottom y \<longrightarrow> itemType s y \<noteq> itemType s x'"
    by (rule firstOfKindE)
  have "x # xs = (x # pre) @ x' # post" using d(1) by simp
  moreover have
    "\<forall>y\<in>set (x # pre). \<not> visible s wtop wbottom y \<longrightarrow> itemType s y \<noteq> itemType s x'"
    using d(5) v by simp
  ultimately show "k \<in> firstOfKind s wtop wbottom (x # xs) seen"
    using firstOfKindI[of "x # xs" "x # pre" x' post s wtop wbottom seen] d(2,3,4) by simp
qed

lemma firstOfKind_Cons_hidden:
  assumes h: "\<not> visible s wtop wbottom x"
  shows "firstOfKind s wtop wbottom (x # xs) seen =
     (if itemType s x \<in> seen then {} else {itemKey s x})
     \<union> firstOfKind s wtop wbottom xs (insert (itemType s x) seen)"
proof (intro set_eqI iffI)
  fix k assume "k \<in> firstOfKind s wtop wbottom (x # xs) seen"
  then obtain x' pre post where d: "x # xs = pre @ x' # post" "k = itemKey s x'"
    "\<not> visible s wtop wbottom x'" "itemType s x' \<notin> seen"
    "\<forall>y\<in>set pre. \<not> visible s wtop wbottom y \<longrightarrow> itemType s y \<noteq> itemType s x'"
    by (rule firstOfKindE)
  show "k \<in> (if itemType s x \<in> seen then {} else {itemKey s x})
          \<union> firstOfKind s wtop wbottom xs (insert (itemType s x) seen)"
  proof (cases pre)
    case Nil
    with d show ?thesis by simp
  next
    case (Cons p pre')
    with d have xs: "xs = pre' @ x' # post" and p: "p = x"
      and rest: "\<forall>y\<in>set pre'. \<not> visible s wtop wbottom y \<longrightarrow> itemType s y \<noteq> itemType s x'"
      by simp_all
    from d(5) Cons p h have "itemType s x \<noteq> itemType s x'" by simp
    with d(4) have "itemType s x' \<notin> insert (itemType s x) seen" by auto
    from firstOfKindI[OF xs d(3) this rest] d(2) show ?thesis by simp
  qed
next
  fix k assume k: "k \<in> (if itemType s x \<in> seen then {} else {itemKey s x})
          \<union> firstOfKind s wtop wbottom xs (insert (itemType s x) seen)"
  show "k \<in> firstOfKind s wtop wbottom (x # xs) seen"
  proof (cases "k \<in> firstOfKind s wtop wbottom xs (insert (itemType s x) seen)")
    case True
    then obtain x' pre post where d: "xs = pre @ x' # post" "k = itemKey s x'"
      "\<not> visible s wtop wbottom x'" "itemType s x' \<notin> insert (itemType s x) seen"
      "\<forall>y\<in>set pre. \<not> visible s wtop wbottom y \<longrightarrow> itemType s y \<noteq> itemType s x'"
      by (rule firstOfKindE)
    have "x # xs = (x # pre) @ x' # post" using d(1) by simp
    moreover have
      "\<forall>y\<in>set (x # pre). \<not> visible s wtop wbottom y \<longrightarrow> itemType s y \<noteq> itemType s x'"
      using d(4,5) by auto
    moreover have "itemType s x' \<notin> seen" using d(4) by simp
    ultimately show ?thesis
      using firstOfKindI[of "x # xs" "x # pre" x' post s wtop wbottom seen] d(2,3) by simp
  next
    case False
    with k have "itemType s x \<notin> seen" "k = itemKey s x" by (auto split: if_splits)
    with firstOfKindI[of "x # xs" "[]" x xs s wtop wbottom seen] h show ?thesis by simp
  qed
qed

lemma scanItems_presize:
  "scanItems s wtop wbottom xs wanted existing (Some types) = Inr (wanted', existing', presize')
   \<Longrightarrow> \<exists>types'. presize' = Some types'
        \<and> snd ` set types' = snd ` set types \<union> firstOfKind s wtop wbottom xs (fst ` set types)"
proof (induction xs arbitrary: wanted existing types)
  case Nil
  then show ?case by auto
next
  case (Cons x xs)
  from Cons.prems obtain rect where r: "getItemRect s x (Some (itemKey s x)) = Inr rect"
    by (auto simp add: Let_def split: sum.splits)
  show ?case
  proof (cases "inWindow wtop wbottom rect")
    case True
    with r have v: "visible s wtop wbottom x" by (simp add: visible_def)
    from Cons.prems r True have
      "scanItems s wtop wbottom xs (Set_add (itemKey s x) wanted)
         (Set_add (itemKey s x) existing) (Some types) = Inr (wanted', existing', presize')"
      by (simp add: Let_def)
    from Cons.IH[OF this] show ?thesis
      by (simp add: firstOfKind_Cons_visible[OF v])
  next
    case False
    with r have h: "\<not> visible s wtop wbottom x" by (simp add: visible_def)
    from Cons.prems r False have
      "scanItems s wtop wbottom xs wanted (Set_add (itemKey s x) existing)
         (Some (presizeAdd (itemType s x) (itemKey s x) types)) = Inr (wanted', existing', presize')"
      by (simp add: Let_def)
    from Cons.IH[OF this] obtain types' where t: "presize' = Some types'"
      "snd ` set types' = snd ` set (presizeAdd (itemType s x) (itemKey s x) types)
         \<union> firstOfKind s wtop wbottom xs (fst ` set (presizeAdd (itemType s x) (itemKey s x) types))"
      by blast
    show ?thesis
      unfolding firstOfKind_Cons_hidden[OF h] t(1)
      using t(2) by (auto simp add: presizeAdd_fst presizeAdd_snd split: if_splits)
  qed
qed


lemma firstDataKey_truthy: "firstDataKey nodes = Some k \<Longrightarrow> truthy (Some k)"
  by (induction nodes) (auto split: if_splits)

lemma getFocusedItemKey_truthy:
  "truthy (getFocusedItemKey s) = (getFocusedItemKey s \<noteq> None)"
  using firstDataKey_truthy[of "activeElement s"]
  by (cases "getFocusedItemKey s") (auto simp add: getFocusedItemKey_def truthy_def)

lemma renderWindow_eq:
  "renderWindow s direction =
     (max 0 (max 0 (scrollTop (container s)) - (if direction < 0 then 500 else 100)),
      max 0 (max 0 (scrollTop (container s)) - (if direction < 0 then 500 else 100))
        + (clientHeight (container s) + (if direction = 0 then 100 else 500) + 100))"
  by (simp add: renderWindow_def Let_def pageSize_def prerenderOtherDirection_def
      prerenderScrollDirection_def)

lemma getRenderItemIndices_sets:
  assumes "getRenderItemIndices direction s = Inr (desired, existing)"
    and "wtop = fst (renderWindow s direction)" and "wbottom = snd (renderWindow s direction)"
  shows "set desired =
           {itemKey s x | x. x \<in> set (items s) \<and> visible s wtop wbottom x}
           \<union> (if \<exists>x\<in>set (items s). visible s wtop wbottom x then {}
              else itemKey s ` set (take initialVisibleItemCount (items s)))
           \<union> set_option (getFocusedItemKey s)
           \<union> (if isManualLayout s then {} else firstOfKind s wtop wbottom (items s) {})"
    and "set existing = itemKey s ` set (items s)"
proof -
  from assms(1) obtain wanted presize where scan:
    "scanItems s wtop wbottom (items s) [] [] (if isManualLayout s then None else Some [])
       = Inr (wanted, existing, presize)"
    unfolding getRenderItemIndices_def assms(2,3)
    by (auto simp add: Let_def split: sum.splits prod.splits)
  have w: "set wanted = {itemKey s x | x. x \<in> set (items s) \<and> visible s wtop wbottom x}"
    using scanItems_wanted[OF scan] by simp
  have empty: "(wanted = []) = (\<not> (\<exists>x\<in>set (items s). visible s wtop wbottom x))"
  proof -
    have "(wanted = []) = (set wanted = {})" by simp
    also have "\<dots> = (\<not> (\<exists>x\<in>set (items s). visible s wtop wbottom x))"
      unfolding w by blast
    finally show ?thesis .
  qed
  have p: "(case presize of None \<Rightarrow> {} | Some types \<Rightarrow> snd ` set types)
           = (if isManualLayout s then {} else firstOfKind s wtop wbottom (items s) {})"
  proof (cases "isManualLayout s")
    case True
    with scan scanItems_manual[of s wtop wbottom "items s" "[]" "[]" wanted existing presize]
    show ?thesis by simp
  next
    case False
    with scan scanItems_presize[of s wtop wbottom "items s" "[]" "[]" "[]" wanted existing presize]
    show ?thesis by auto
  qed
  show "set existing = itemKey s ` set (items s)"
    using scanItems_existing[OF scan] by simp
  have "desired =
     (let renderKeys1 =
            (if wanted = []
             then Set_addAll (map (itemKey s) (take initialVisibleItemCount (items s))) wanted
             else wanted);
          renderKeys2 =
            (if truthy (getFocusedItemKey s)
             then Set_add (the (getFocusedItemKey s)) renderKeys1 else renderKeys1)
      in (case presize of
            None \<Rightarrow> renderKeys2
          | Some types \<Rightarrow> Set_addAll (map snd types) renderKeys2))"
    using assms(1) scan unfolding getRenderItemIndices_def assms(2,3)[symmetric]
    by (simp add: Let_def)
  moreover have "set desired =
      (if wanted = [] then set wanted \<union> itemKey s ` set (take initialVisibleItemCount (items s))
       else set wanted)
      \<union> set_option (getFocusedItemKey s)
      \<union> (case presize of None \<Rightarrow> {} | Some types \<Rightarrow> snd ` set types)"
    if "desired =
     (let renderKeys1 =
            (if wanted = []
             then Set_addAll (map (itemKey s) (take initialVisibleItemCount (items s))) wanted
             else wanted);
          renderKeys2 =
            (if truthy (getFocusedItemKey s)
             then Set_add (the (getFocusedItemKey s)) renderKeys1 else renderKeys1)
      in (case presize of
            None \<Rightarrow> renderKeys2
          | Some types \<Rightarrow> Set_addAll (map snd types) renderKeys2))"
  proof (cases "getFocusedItemKey s")
    case None
    with that show ?thesis
      by (cases presize) (auto simp add: Let_def truthy_def)
  next
    case (Some k)
    with getFocusedItemKey_truthy[of s] have "truthy (Some k)" by simp
    with Some that show ?thesis
      by (cases presize) (auto simp add: Let_def)
  qed
  ultimately have "set desired =
      (if wanted = [] then set wanted \<union> itemKey s ` set (take initialVisibleItemCount (items s))
       else set wanted)
      \<union> set_option (getFocusedItemKey s)
      \<union> (case presize of None \<Rightarrow> {} | Some types \<Rightarrow> snd ` set types)"
    by blast
  then show "set desired =
           {itemKey s x | x. x \<in> set (items s) \<and> visible s wtop wbottom x}
           \<union> (if \<exists>x\<in>set (items s). visible s wtop wbottom x then {}
              else itemKey s ` set (take initialVisibleItemCount (items s)))
           \<union> set_option (getFocusedItemKey s)
           \<union> (if isManualLayout s then {} else firstOfKind s wtop wbottom (items s) {})"
    unfolding p empty w by auto
qed

lemma visible_iff:
  "visible s wtop wbottom x =
     (\<exists>r. getItemRect s x (Some (itemKey s x)) = Inr (Some r)
          \<and> rect_y r + rect_height r > wtop \<and> rect_y r \<le> wbottom)"
  by (auto simp add: visible_def inWindow_def split: sum.splits option.splits)

text \<open>
  C2, as amended. When the calculator returns, its desired key set is exactly the union of
  four sets, for the window \<open>top = max 0 (max 0 scrollTop - m)\<close>, where \<open>m\<close> is 500
  when scrolling up and 100 otherwise, and
  \<open>bottom = top + clientHeight + (100 or 500) + 100\<close>, the middle margin being 100 when the
  scroll direction is 0: the keys of the items whose known rectangle \<open>r\<close> has
  \<open>r.y + r.height > top\<close> and \<open>r.y \<le> bottom\<close>; the keys of the first 30 items when no
  item passes that test; the focused key, if any; and, under flow layout only, the key of
  the first item of each kind among the items that fail the test.
\<close>

theorem getRenderItemIndices_desired:
  assumes "getRenderItemIndices direction s = Inr (desired, existing)"
    and "wtop = max 0 (max 0 (scrollTop (container s)) - (if direction < 0 then 500 else 100))"
    and "wbottom = wtop + (clientHeight (container s) + (if direction = 0 then 100 else 500) + 100)"
  shows "set desired =
           {itemKey s x | x. x \<in> set (items s) \<and> visible s wtop wbottom x}
           \<union> (if \<exists>x\<in>set (items s). visible s wtop wbottom x then {}
              else itemKey s ` set (take 30 (items s)))
           \<union> set_option (getFocusedItemKey s)
           \<union> (if isManualLayout s then {} else firstOfKind s wtop wbottom (items s) {})"
proof -
  have "wtop = fst (renderWindow s direction)" "wbottom = snd (renderWindow s direction)"
    using assms(2,3) by (simp_all add: renderWindow_eq)
  from getRenderItemIndices_sets(1)[OF assms(1) this] show ?thesis
    by (simp add: initialVisibleItemCount_def)
qed

lemma manualEngine_visible:
  "visible (manualEngine yb keys) wtop wbottom (k, t) =
     ((if k = ''a'' then 0 else yb) + 50 > wtop \<and> (if k = ''a'' then 0 else yb) \<le> wbottom)"
  by (simp add: visible_def getItemRect_def manualEngine_fields manualRect_def inWindow_def)

lemma manualEngine_near:
  "getRenderItemIndices 0 (manualEngine 550 keys) = Inr ([''a'', ''b''], [''a'', ''b''])"
  by (simp add: manualEngine_fields getRenderItemIndices_def
      renderWindow_def pageSize_def prerenderOtherDirection_def prerenderScrollDirection_def
      isManualLayout_def getItemRect_def inWindow_def Set_add_def getFocusedItemKey_def
      truthy_def manualRect_def node_defs Let_def)

theorem getRenderItemIndices_desired_witness:
  "{itemKey (manualEngine 550 []) x | x.
      x \<in> set (items (manualEngine 550 [])) \<and> visible (manualEngine 550 []) 0 600 x}
   = {''a'', ''b''}"
proof -
  have w: "(0::rat) = max 0 (max 0 (scrollTop (container (manualEngine 550 [])))
                        - (if (0::rat) < 0 then 500 else 100))"
    by (simp add: manualEngine_fields exampleContainer_def)
  have b: "(600::rat) = 0 + (clientHeight (container (manualEngine 550 []))
                        + (if (0::rat) = 0 then 100 else 500) + 100)"
    by (simp add: manualEngine_fields exampleContainer_def)
  have v: "\<exists>x\<in>set (items (manualEngine 550 [])). visible (manualEngine 550 []) 0 600 x"
    by (simp add: manualEngine_fields manualEngine_visible)
  have f: "getFocusedItemKey (manualEngine 550 []) = None"
    by (simp add: getFocusedItemKey_def manualEngine_fields)
  have m: "isManualLayout (manualEngine 550 [])"
    by (simp add: isManualLayout_def manualEngine_fields)
  from getRenderItemIndices_desired[OF manualEngine_near[of "[]"] w b]
  show ?thesis
    unfolding if_P[OF v] if_P[OF m] f by simp
qed

text \<open>
  C2 as the claim states it fails. With the viewport at offset 0, 400 high, and no scroll
  direction, both margins are 100 and the claim's window ends at \<open>0 + 400 + 100 = 500\<close>.
  The item \<open>b\<close>, whose rectangle starts at 550, lies entirely outside it, yet its key is
  desired: it is not focused, manual layout has no presize representatives, and the item
  \<open>a\<close> intersects the window, so the fallback to the first 30 items does not apply.
\<close>

theorem getRenderItemIndices_window_counterexample:
  "getRenderItemIndices 0 (manualEngine 550 []) = Inr ([''a'', ''b''], [''a'', ''b''])
   \<and> getItemRect (manualEngine 550 []) (''b'', ''tile'') (Some ''b'')
       = Inr (Some \<lparr>rect_x = 0, rect_y = 550, rect_width = 100, rect_height = 50\<rparr>)
   \<and> \<not> (550 \<le> scrollTop (container (manualEngine 550 []))
                 + clientHeight (container (manualEngine 550 [])) + prerenderOtherDirection)
   \<and> visible (manualEngine 550 [])
        (scrollTop (container (manualEngine 550 [])) - prerenderOtherDirection)
        (scrollTop (container (manualEngine 550 []))
           + clientHeight (container (manualEngine 550 [])) + prerenderOtherDirection)
        (''a'', ''tile'')
   \<and> getFocusedItemKey (manualEngine 550 []) = None
   \<and> isManualLayout (manualEngine 550 [])"
  by (simp add: manualEngine_near manualEngine_visible getItemRect_def manualRect_def
      manualEngine_fields exampleContainer_def prerenderOtherDirection_def
      getFocusedItemKey_def isManualLayout_def)

lemma scanItems_total:
  assumes "\<forall>x\<in>set xs. \<exists>r. getItemRect s x (Some (itemKey s x)) = Inr r"
  shows "\<exists>w e p. scanItems s wtop wbottom xs wanted existing presize = Inr (w, e, p)"
  using assms
proof (induction xs arbitrary: wanted existing presize)
  case Nil
  then show ?case by simp
next
  case (Cons x xs)
  then obtain r where r: "getItemRect s x (Some (itemKey s x)) = Inr r" by auto
  from Cons.prems have rest: "\<forall>x\<in>set xs. \<exists>r. getItemRect s x (Some (itemKey s x)) = Inr r"
    by simp
  show ?case
    using Cons.IH[OF rest] r by (simp add: Let_def)
qed

lemma rowsEngine_fields:
  "container (rowsEngine n keyOf kindOf) = exampleContainer
     \<lparr>scrollTop := 1000, children := [placeholderNode]\<rparr>"
  "activeElement (rowsEngine n keyOf kindOf) = []"
  "items (rowsEngine n keyOf kindOf) = [0..<n]"
  "itemKey (rowsEngine n keyOf kindOf) = keyOf"
  "itemType (rowsEngine n keyOf kindOf) = kindOf"
  "itemRect (rowsEngine n keyOf kindOf) = Some rowsRect"
  "itemProperties (rowsEngine n keyOf kindOf) = Map.empty"
  by (simp_all add: rowsEngine_def initialState_def exampleContainer_def)

lemma rowsEngine_rect:
  "getItemRect (rowsEngine n keyOf kindOf) i key
     = Inr (Some \<lparr>rect_x = 0, rect_y = 50 * of_nat i, rect_width = 300, rect_height = 50\<rparr>)"
  by (simp add: getItemRect_def rowsEngine_fields rowsRect_def)

lemma rowsEngine_visible:
  "visible (rowsEngine n keyOf kindOf) 900 1900 i = (18 \<le> i \<and> i \<le> 38)"
proof -
  have "(900 < 50 * (of_nat i :: rat) + 50) = ((of_nat 17 :: rat) < of_nat i)" by auto
  moreover have "(50 * (of_nat i :: rat) \<le> 1900) = ((of_nat i :: rat) \<le> of_nat 38)" by auto
  ultimately show ?thesis
    unfolding visible_def rowsEngine_rect inWindow_def of_nat_less_iff of_nat_le_iff
    by auto
qed

lemma rowsEngine_window: "renderWindow (rowsEngine n keyOf kindOf) 1 = (900, 1900)"
  by (simp add: renderWindow_eq rowsEngine_fields exampleContainer_def)

text \<open>
  C3, as amended. In the rows scenario (viewport 400 high at offset 1000, scrolling down,
  so 100 behind and 500 ahead; items 50 high from \<open>y = 0\<close>, their rectangles supplied by
  the caller; no focused item) with more than 18 items, the calculator returns and
  selects exactly the items of index 18 to 38 inclusive: the window is
  \<open>top = 900\<close>, \<open>bottom = 1900\<close>, and the item of index 38, whose \<open>y\<close> is 1900, passes
  the test \<open>y \<le> 1900\<close>.
\<close>

theorem rows_selected:
  assumes "18 < n"
  shows "\<exists>desired existing.
           getRenderItemIndices 1 (rowsEngine n keyOf kindOf) = Inr (desired, existing)
         \<and> set desired = keyOf ` {i. 18 \<le> i \<and> i \<le> 38 \<and> i < n}"
proof -
  let ?s = "rowsEngine n keyOf kindOf"
  have "\<exists>w e p. scanItems ?s 900 1900 (items ?s) [] [] None = Inr (w, e, p)"
    by (rule scanItems_total) (simp add: rowsEngine_rect)
  then obtain desired existing where
    d: "getRenderItemIndices 1 ?s = Inr (desired, existing)"
    by (auto simp add: getRenderItemIndices_def rowsEngine_window isManualLayout_def
        rowsEngine_fields Let_def)
  have v: "\<exists>x\<in>set (items ?s). visible ?s 900 1900 x"
    using assms by (auto simp add: rowsEngine_fields rowsEngine_visible intro!: bexI[of _ 18])
  have f: "getFocusedItemKey ?s = None"
    by (simp add: getFocusedItemKey_def rowsEngine_fields)
  have m: "isManualLayout ?s"
    by (simp add: isManualLayout_def rowsEngine_fields)
  have "set desired = {itemKey ?s x | x. x \<in> set (items ?s) \<and> visible ?s 900 1900 x}"
    using getRenderItemIndices_sets(1)[OF d, of 900 1900]
    unfolding rowsEngine_window if_P[OF v] if_P[OF m] f by simp
  also have "\<dots> = keyOf ` {i. 18 \<le> i \<and> i \<le> 38 \<and> i < n}"
    by (auto simp add: rowsEngine_fields rowsEngine_visible)
  finally show ?thesis using d by blast
qed

theorem rows_selected_witness:
  "\<exists>desired existing.
     getRenderItemIndices 1 (rowsEngine 40 decimal (\<lambda>i. ''row'')) = Inr (desired, existing)
   \<and> set desired = decimal ` {i. 18 \<le> i \<and> i \<le> 38 \<and> i < 40}"
proof -
  have "(18::nat) < 40" by simp
  from rows_selected[OF this] show ?thesis .
qed

text \<open>
  C3 as the claim states it fails: with 40 items keyed by their decimal index the desired
  keys are those of the indices 18 to 38, and the key of index 38 is not among those of
  the indices 18 to 37.
\<close>

theorem rows_selected_counterexample:
  "getRenderItemIndices 1 (rowsEngine 40 decimal (\<lambda>i. ''row''))
     = Inr (map decimal [18..<39], map decimal [0..<40])
   \<and> decimal 38 \<in> set (map decimal [18..<39])
   \<and> decimal 38 \<notin> set (map decimal [18..<38])"
  by code_simp

text \<open>
  Under flow layout the same window selects the same items and, in addition, the first
  item of each kind among those outside the window, here the item of index 0, although
  its kind is measured.
\<close>

lemma rows_flow_example:
  "getRenderItemIndices 1 rowsFlowEngine
     = Inr (map decimal [18..<39] @ [decimal 0], map decimal [0..<40])"
  by code_simp

section \<open>Retained keys and their display\<close>

lemma elementLookupFrom_sound:
  "elementLookupFrom n cs m = Inr m' \<Longrightarrow> m' k = Some i
   \<Longrightarrow> m k = Some i \<or> (n \<le> i \<and> i < n + length cs \<and> dataset_key (cs ! (i - n)) = Some k)"
proof (induction cs arbitrary: n m)
  case Nil
  then show ?case by simp
next
  case (Cons c cs)
  show ?case
  proof (cases "isHTMLElement c \<and> truthy (dataset_key c)")
    case True
    then obtain k0 where k0: "dataset_key c = Some k0" by (auto simp add: truthy_def split: option.splits)
    with True Cons.prems have "elementLookupFrom (n + 1) cs (m(k0 \<mapsto> n)) = Inr m'" by simp
    from Cons.IH[OF this Cons.prems(2)] k0 show ?thesis
      by (auto simp add: nth_Cons' split: if_splits)
  next
    case False
    with Cons.prems have "elementLookupFrom (n + 1) cs m = Inr m'"
      by (auto split: if_splits)
    from Cons.IH[OF this Cons.prems(2)] show ?thesis
      by (auto simp add: nth_Cons')
  qed
qed

lemma getElementLookupByKey_sound:
  assumes "getElementLookupByKey s = Inr lookup" and "lookup k = Some i"
  shows "i < length (children (container s))"
    and "dataset_key (children (container s) ! i) = Some k"
  using elementLookupFrom_sound[OF assms(1)[unfolded getElementLookupByKey_def] assms(2)]
  by simp_all

lemma updateStyle_children:
  "children (container (updateStyle i f s)) =
     (children (container s))
       [i := (children (container s) ! i)\<lparr>style := f (style (children (container s) ! i))\<rparr>]"
  by (simp add: updateStyle_def)

lemma setDisplays_length [simp]:
  "length (children (container (setDisplays lookup existing keys s)))
     = length (children (container s))"
  by (induction keys arbitrary: s) (simp_all add: updateStyle_children Let_def split: option.split)

lemma setDisplays_untouched:
  "\<forall>k\<in>set keys. lookup k \<noteq> Some i
   \<Longrightarrow> children (container (setDisplays lookup existing keys s)) ! i = children (container s) ! i"
proof (induction keys arbitrary: s)
  case Nil
  then show ?case by simp
next
  case (Cons k keys)
  then show ?case
    by (cases "lookup k") (auto simp add: updateStyle_children Let_def)
qed

lemma setDisplays_display:
  assumes inj: "\<And>k k' i. lookup k = Some i \<Longrightarrow> lookup k' = Some i \<Longrightarrow> k = k'"
    and bound: "\<And>k i. lookup k = Some i \<Longrightarrow> i < length (children (container s))"
    and "lookup key = Some i" and "key \<in> set keys"
  shows "style_display (style (children (container (setDisplays lookup existing keys s)) ! i))
           = (if key \<in> set existing then [] else ''none'')"
  using bound assms(4)
proof (induction keys arbitrary: s)
  case Nil
  then show ?case by simp
next
  case (Cons k keys)
  define s1 where "s1 =
    (case lookup k of
       None \<Rightarrow> s
     | Some j \<Rightarrow> updateStyle j
         (\<lambda>st. st\<lparr>style_display := (if k \<notin> set existing then ''none'' else [])\<rparr>) s)"
  have step: "setDisplays lookup existing (k # keys) s = setDisplays lookup existing keys s1"
    by (cases "lookup k") (simp_all add: s1_def Let_def)
  have len: "length (children (container s1)) = length (children (container s))"
    by (simp add: s1_def updateStyle_children split: option.split)
  show ?case
  proof (cases "key \<in> set keys")
    case True
    have "\<And>k i. lookup k = Some i \<Longrightarrow> i < length (children (container s1))"
      using Cons.prems(1) len by simp
    from Cons.IH[OF this True] show ?thesis unfolding step .
  next
    case False
    with Cons.prems(2) have k: "k = key" by simp
    have "\<forall>k'\<in>set keys. lookup k' \<noteq> Some i"
      using inj[OF assms(3)] False by blast
    from setDisplays_untouched[OF this]
    have "children (container (setDisplays lookup existing keys s1)) ! i
            = children (container s1) ! i" .
    moreover have "style_display (style (children (container s1) ! i))
            = (if key \<in> set existing then [] else ''none'')"
      using assms(3) Cons.prems(1)[OF assms(3)]
      by (simp add: s1_def k updateStyle_children)
    ultimately show ?thesis unfolding step by simp
  qed
qed

lemma updateIndexes_display:
  assumes "pageSize s \<noteq> 0"
    and "getRenderItemIndices (scrollDirection (trackScroll s)) (trackScroll s)
           = Inr (desiredKeys, existingKeys)"
    and "getElementLookupByKey (trackScroll s) = Inr elementLookup"
    and "newKeys = getStableArray (renderKeys s) desiredKeys
                     (getType (trackScroll s)) (getType (trackScroll s))"
    and "key \<in> set newKeys" and "elementLookup key = Some i"
  shows "style_display (style (children (container (snd (updateIndexes getStableArray s))) ! i))
           = (if key \<in> itemKey s ` set (items s) then [] else ''none'')"
proof -
  let ?s1 = "trackScroll s"
  have inj: "\<And>k k' i. elementLookup k = Some i \<Longrightarrow> elementLookup k' = Some i \<Longrightarrow> k = k'"
    using getElementLookupByKey_sound(2)[OF assms(3)] by (metis option.inject)
  have bound: "\<And>k i. elementLookup k = Some i \<Longrightarrow> i < length (children (container ?s1))"
    using getElementLookupByKey_sound(1)[OF assms(3)] .
  have ex: "set existingKeys = itemKey s ` set (items s)"
    using getRenderItemIndices_sets(2)[OF assms(2) refl refl] by simp
  have "children (container (snd (updateIndexes getStableArray s)))
          = children (container (setDisplays elementLookup existingKeys newKeys ?s1))"
    unfolding updateIndexes_completed[where getStableArray = getStableArray,
        OF assms(1,2,3,4) refl]
    by simp
  with setDisplays_display[of elementLookup ?s1 key i newKeys existingKeys, OF inj bound assms(6,5)]
  show ?thesis unfolding ex by simp
qed

text \<open>
  C9, as amended, for the reconciler of the specification. In a pass that reaches the
  reconciliation: a previously rendered key that is no longer desired but whose item still
  exists in the data is retained in the output sequence; a key whose item does not exist
  in the data is not in the output sequence; and every element of an output key is left
  displayed (its \<^verbatim>\<open>display\<close> is set to the empty string). The not-displayed treatment
  \<^verbatim>\<open>display: none\<close> is what \<^verbatim>\<open>updateIndexes\<close> gives to an output key whose item is
  not in the data (\<open>updateIndexes_display\<close>), not to a retained key whose item exists.
\<close>

theorem updateIndexes_retained_displayed:
  assumes "pageSize s \<noteq> 0"
    and "getRenderItemIndices (scrollDirection (trackScroll s)) (trackScroll s)
           = Inr (desiredKeys, existingKeys)"
    and "getElementLookupByKey (trackScroll s) = Inr elementLookup"
    and "newKeys = reconcileFor s (renderKeys s) desiredKeys
                     (getType (trackScroll s)) (getType (trackScroll s))"
  shows "(\<forall>key\<in>set (renderKeys s).
            key \<notin> set desiredKeys \<and> key \<in> itemKey s ` set (items s) \<longrightarrow> key \<in> set newKeys)
       \<and> (\<forall>key. key \<notin> itemKey s ` set (items s) \<longrightarrow> key \<notin> set newKeys)
       \<and> (\<forall>key\<in>set newKeys. \<forall>i. elementLookup key = Some i \<longrightarrow>
            style_display (style (children (container
              (snd (updateIndexes (reconcileFor s) s))) ! i)) = [])"
proof (intro conjI ballI allI impI)
  fix key assume "key \<in> set (renderKeys s)"
    and "key \<notin> set desiredKeys \<and> key \<in> itemKey s ` set (items s)"
  then show "key \<in> set newKeys"
    unfolding assms(4) by (auto simp add: reconcileFor_def reconcile_def)
next
  fix key assume "key \<notin> itemKey s ` set (items s)"
  then show "key \<notin> set newKeys"
    unfolding assms(4) by (auto simp add: reconcileFor_def reconcile_def)
next
  fix key i assume k: "key \<in> set newKeys" and i: "elementLookup key = Some i"
  from k have "key \<in> itemKey s ` set (items s)"
    unfolding assms(4) by (auto simp add: reconcileFor_def reconcile_def)
  with updateIndexes_display[where getStableArray = "reconcileFor s", OF assms(1,2,3,4) k i]
  show "style_display (style (children (container
          (snd (updateIndexes (reconcileFor s) s))) ! i)) = []"
    by simp
qed

lemma manualEngine_reconciled:
  "reconcileFor (manualEngine yb [''a'', ''b'']) (renderKeys (manualEngine yb [''a'', ''b'']))
     [''a''] getOld getNew = [''a'', ''b'']"
  by (simp add: reconcileFor_def reconcile_def manualEngine_fields)

theorem updateIndexes_retained_displayed_witness:
  "''b'' \<in> set [''a'', ''b'']
   \<and> style_display (style (children (container
        (snd (updateIndexes (reconcileFor (manualEngine 5000 [''a'', ''b'']))
                (manualEngine 5000 [''a'', ''b''])))) ! Suc (Suc 0))) = []"
proof -
  let ?s = "manualEngine 5000 [''a'', ''b'']"
  have d: "getRenderItemIndices (scrollDirection (trackScroll ?s)) (trackScroll ?s)
             = Inr ([''a''], [''a'', ''b''])"
    by (simp only: manualEngine_direction manualEngine_far)
  have n: "[''a'', ''b''] = reconcileFor ?s (renderKeys ?s) [''a'']
                              (getType (trackScroll ?s)) (getType (trackScroll ?s))"
    by (simp only: manualEngine_reconciled)
  have b: "''b'' \<in> set [''a'', ''b'']" by simp
  have i: "[''a'' \<mapsto> Suc 0, ''b'' \<mapsto> Suc (Suc 0)] ''b'' = Some (Suc (Suc 0))" by simp
  from updateIndexes_retained_displayed[OF manualEngine_pageSize d manualEngine_elementLookup n]
  have "\<forall>key\<in>set [''a'', ''b'']. \<forall>i. [''a'' \<mapsto> Suc 0, ''b'' \<mapsto> Suc (Suc 0)] key = Some i \<longrightarrow>
            style_display (style (children (container
              (snd (updateIndexes (reconcileFor ?s) ?s))) ! i)) = []"
    by blast
  with b i show ?thesis by blast
qed

text \<open>
  C9 as the claim states it fails. The key \<open>b\<close> was rendered, is no longer desired (its
  item lies far below the window) and its item exists; it is retained, and after the pass
  its element is not hidden.
\<close>

theorem updateIndexes_hidden_counterexample:
  "getRenderItemIndices 0 (trackScroll (manualEngine 5000 [''a'', ''b'']))
     = Inr ([''a''], [''a'', ''b''])
   \<and> renderKeys (manualEngine 5000 [''a'', ''b'']) = [''a'', ''b'']
   \<and> reconcileFor (manualEngine 5000 [''a'', ''b'']) [''a'', ''b''] [''a'']
        (getType (trackScroll (manualEngine 5000 [''a'', ''b''])))
        (getType (trackScroll (manualEngine 5000 [''a'', ''b''])))
      = [''a'', ''b'']
   \<and> dataset_key (children (container
        (snd (updateIndexes (reconcileFor (manualEngine 5000 [''a'', ''b'']))
                (manualEngine 5000 [''a'', ''b''])))) ! 2) = Some ''b''
   \<and> style_display (style (children (container
        (snd (updateIndexes (reconcileFor (manualEngine 5000 [''a'', ''b'']))
                (manualEngine 5000 [''a'', ''b''])))) ! 2)) \<noteq> ''none''"
proof -
  let ?s = "manualEngine 5000 [''a'', ''b'']"
  have d: "getRenderItemIndices (scrollDirection (trackScroll ?s)) (trackScroll ?s)
             = Inr ([''a''], [''a'', ''b''])"
    by (simp only: manualEngine_direction manualEngine_far)
  have n: "[''a'', ''b''] = reconcileFor ?s (renderKeys ?s) [''a'']
                              (getType (trackScroll ?s)) (getType (trackScroll ?s))"
    by (simp only: manualEngine_reconciled)
  have u: "children (container (snd (updateIndexes (reconcileFor ?s) ?s)))
             = children (container (setDisplays [''a'' \<mapsto> Suc 0, ''b'' \<mapsto> Suc (Suc 0)]
                 [''a'', ''b''] [''a'', ''b''] (trackScroll ?s)))"
    unfolding updateIndexes_completed[where getStableArray = "reconcileFor ?s",
        OF manualEngine_pageSize d manualEngine_elementLookup n refl]
    by simp
  have c: "children (container (setDisplays [''a'' \<mapsto> Suc 0, ''b'' \<mapsto> Suc (Suc 0)]
                 [''a'', ''b''] [''a'', ''b''] (trackScroll ?s)))
           = [placeholderNode, elementFor ''a'' ''tile'', elementFor ''b'' ''tile'']"
    by (simp add: updateStyle_children manualEngine_fields exampleContainer_def
        elementFor_def placeholderNode_def Let_def)
  show ?thesis
    unfolding u c
    by (simp add: manualEngine_far manualEngine_fields manualEngine_reconciled[simplified manualEngine_fields]
        elementFor_def placeholderNode_def numeral_2_eq_2)
qed

section \<open>The layout engine\<close>

lemma flowEngine_fields:
  "container (flowEngine hw) = exampleContainer
     \<lparr>children := [placeholderNode, elementFor ''h'' ''header'',
                         elementFor ''t1'' ''tile'', elementFor ''t2'' ''tile'',
                         elementFor ''t3'' ''tile'', elementFor ''t4'' ''tile'',
                         elementFor ''t5'' ''tile'']\<rparr>"
  "items (flowEngine hw) = [(''h'', ''header''), (''t1'', ''tile''), (''t2'', ''tile''),
                  (''t3'', ''tile''), (''t4'', ''tile''), (''t5'', ''tile'')]"
  "itemKey (flowEngine hw) = fst"
  "itemType (flowEngine hw) = snd"
  "itemRect (flowEngine hw) = None"
  "itemProperties (flowEngine hw) = Map.empty"
  "classProperties (flowEngine hw) = [''header'' \<mapsto> flowClass ''header'' False hw 40,
                            ''tile'' \<mapsto> flowClass ''tile'' True 100 50]"
  "containerPadding (flowEngine hw) = Margin_zero"
  "placeholder_height (flowEngine hw) = None"
  "containerWidth (flowEngine hw) = 300"
  "scrollAnchor (flowEngine hw) = None"
  by (simp_all add: flowEngine_def exampleEngine_def initialState_def exampleProps_def
      exampleContainer_def)

lemma flowEngine_elementLookup:
  "getElementLookupByKey (flowEngine hw)
     = Inr [''h'' \<mapsto> 1, ''t1'' \<mapsto> 2, ''t2'' \<mapsto> 3, ''t3'' \<mapsto> 4, ''t4'' \<mapsto> 5, ''t5'' \<mapsto> 6]"
  by (simp add: flowEngine_fields getElementLookupByKey_def
      isHTMLElement_def truthy_def node_defs eval_nat_numeral)

lemmas layout_defs = layoutItem_def getItemProperties_def updateStyle_def
  flowClass_def ClassProperties_new_def ItemProperties_new_def

text \<open>
  C4. In the flow scenario, whatever the estimated width of the header,
  \<^verbatim>\<open>layoutChildren\<close> returns normally; it caches the header at \<open>(0, 0)\<close>, 40 high, and
  the tiles at \<open>(0, 40)\<close>, \<open>(100, 40)\<close>, \<open>(200, 40)\<close>, \<open>(0, 90)\<close>, \<open>(100, 90)\<close>; it
  positions the elements absolutely at these offsets and gives the header's element the
  width 300; and it sets the placeholder's height, the total content extent, to 140.
\<close>

theorem flow_layout_example:
  "fst (layoutChildren (flowEngine hw)) = Inr ()
   \<and> map (\<lambda>key. map_option Rect.truncate
              (itemProperties (snd (layoutChildren (flowEngine hw))) key))
         [''h'', ''t1'', ''t2'', ''t3'', ''t4'', ''t5'']
     = [Some \<lparr>rect_x = 0, rect_y = 0, rect_width = hw, rect_height = 40\<rparr>,
        Some \<lparr>rect_x = 0, rect_y = 40, rect_width = 100, rect_height = 50\<rparr>,
        Some \<lparr>rect_x = 100, rect_y = 40, rect_width = 100, rect_height = 50\<rparr>,
        Some \<lparr>rect_x = 200, rect_y = 40, rect_width = 100, rect_height = 50\<rparr>,
        Some \<lparr>rect_x = 0, rect_y = 90, rect_width = 100, rect_height = 50\<rparr>,
        Some \<lparr>rect_x = 100, rect_y = 90, rect_width = 100, rect_height = 50\<rparr>]
   \<and> map (\<lambda>element. (dataset_key element, style_position (style element),
                       style_left (style element), style_top (style element),
                       style_width (style element)))
         (children (container (snd (layoutChildren (flowEngine hw)))))
     = [(None, [], None, None, None),
        (Some ''h'', ''absolute'', Some 0, Some 0, Some 300),
        (Some ''t1'', ''absolute'', Some 0, Some 40, None),
        (Some ''t2'', ''absolute'', Some 100, Some 40, None),
        (Some ''t3'', ''absolute'', Some 200, Some 40, None),
        (Some ''t4'', ''absolute'', Some 0, Some 90, None),
        (Some ''t5'', ''absolute'', Some 100, Some 90, None)]
   \<and> placeholder_height (snd (layoutChildren (flowEngine hw))) = Some 140"
  unfolding layoutChildren_def flowEngine_elementLookup
  apply (simp add: flowEngine_fields)
  apply (simp add: layout_defs flowEngine_fields correctForScrollAnchor_def Let_def
      node_defs Rect.defs ItemProperties.defs)
  done

section \<open>Scrolling to an item\<close>




section \<open>The duplicate check of \<^verbatim>\<open>update\<close>\<close>

lemma registerItems_ok:
  "distinct (map keyOf xs) \<Longrightarrow> set seen \<inter> keyOf ` set xs = {}
   \<Longrightarrow> fst (registerItems keyOf xs seen lookup) = Inr ()"
proof (induction xs arbitrary: seen lookup)
  case Nil
  then show ?case by simp
next
  case (Cons x xs)
  from Cons.prems have "keyOf x \<notin> set seen" by auto
  moreover from Cons.prems have "set (Set_add (keyOf x) seen) \<inter> keyOf ` set xs = {}"
    by auto
  moreover from Cons.prems have "distinct (map keyOf xs)" by simp
  ultimately show ?case using Cons.IH by (simp add: Let_def)
qed

lemma registerItems_duplicate:
  "\<not> (distinct (map keyOf xs) \<and> set seen \<inter> keyOf ` set xs = {})
   \<Longrightarrow> \<exists>key. fst (registerItems keyOf xs seen lookup) = Inl (DuplicateKey key)
            \<and> key \<in> keyOf ` set xs"
proof (induction xs arbitrary: seen lookup)
  case Nil
  then show ?case by simp
next
  case (Cons x xs)
  show ?case
  proof (cases "keyOf x \<in> set seen")
    case True
    then show ?thesis by (simp add: Let_def)
  next
    case False
    with Cons.prems have
      "\<not> (distinct (map keyOf xs) \<and> set (Set_add (keyOf x) seen) \<inter> keyOf ` set xs = {})"
      by auto
    from Cons.IH[OF this] False show ?thesis by (auto simp add: Let_def)
  qed
qed

lemma getItemRect_error: "getItemRect s x key = Inl e \<Longrightarrow> \<exists>r. e = IncompleteRect r"
  by (auto simp add: getItemRect_def Let_def split: option.splits if_splits)

lemma scanItems_error:
  "scanItems s wtop wbottom xs wanted existing presize = Inl e \<Longrightarrow> \<exists>r. e = IncompleteRect r"
proof (induction xs arbitrary: wanted existing presize)
  case Nil
  then show ?case by simp
next
  case (Cons x xs)
  show ?case
  proof (cases "getItemRect s x (Some (itemKey s x))")
    case (Inl e')
    with Cons.prems getItemRect_error[OF Inl] show ?thesis by (simp add: Let_def)
  next
    case (Inr rect)
    with Cons.prems Cons.IH show ?thesis
      by (auto simp add: Let_def split: if_splits)
  qed
qed

lemma getRenderItemIndices_error:
  "getRenderItemIndices direction s = Inl e \<Longrightarrow> \<exists>r. e = IncompleteRect r"
  using scanItems_error
  by (fastforce simp add: getRenderItemIndices_def Let_def split: sum.splits prod.splits)

lemma elementLookupFrom_error:
  "elementLookupFrom n cs m = Inl e \<Longrightarrow> \<exists>i. e = ElementWithoutDataKey i"
  by (induction cs arbitrary: n m) (auto split: if_splits)

lemma updateIndexes_error:
  "fst (updateIndexes g s) = Inl e \<Longrightarrow> e \<noteq> DuplicateKey key"
proof -
  assume a: "fst (updateIndexes g s) = Inl e"
  show ?thesis
  proof (cases "getRenderItemIndices (scrollDirection (trackScroll s)) (trackScroll s)")
    case (Inl e')
    with a getRenderItemIndices_error[OF Inl] show ?thesis
      by (auto simp add: updateIndexes_def Let_def split: if_splits)
  next
    case (Inr p)
    obtain d x where p: "p = (d, x)" by (cases p)
    show ?thesis
    proof (cases "getElementLookupByKey (trackScroll s)")
      case (Inl e')
      with elementLookupFrom_error[of 0 "children (container (trackScroll s))" Map.empty e']
      have "\<exists>i. e' = ElementWithoutDataKey i" by (simp add: getElementLookupByKey_def)
      with a Inr p Inl show ?thesis
        by (auto simp add: updateIndexes_def Let_def split: if_splits)
    next
      case (Inr l)
      with a \<open>getRenderItemIndices (scrollDirection (trackScroll s)) (trackScroll s) = Inr p\<close> p
      show ?thesis
        by (auto simp add: updateIndexes_def Let_def split: if_splits)
    qed
  qed
qed


lemma layoutItem_error:
  "fst (layoutItem lookup w x pen s) = Inl e \<Longrightarrow> e \<noteq> DuplicateKey key"
proof (cases "itemRect s = None")
  case True
  assume "fst (layoutItem lookup w x pen s) = Inl e"
  with True show ?thesis
    by (auto simp add: layoutItem_def Let_def split: prod.splits option.splits)
next
  case False
  assume a: "fst (layoutItem lookup w x pen s) = Inl e"
  show ?thesis
  proof (cases "getItemRect s x (Some (itemKey s x))")
    case (Inl e')
    with a False getItemRect_error[OF Inl] show ?thesis
      by (auto simp add: layoutItem_def Let_def)
  next
    case (Inr r)
    with a False show ?thesis
      by (cases r) (auto simp add: layoutItem_def Let_def)
  qed
qed

lemma layoutItems_error:
  "fst (layoutItems lookup w xs pen s) = Inl e \<Longrightarrow> e \<noteq> DuplicateKey key"
proof (induction xs arbitrary: pen s)
  case Nil
  then show ?case by simp
next
  case (Cons x xs)
  obtain r s1 where step: "layoutItem lookup w x pen s = (r, s1)" by (cases "layoutItem lookup w x pen s")
  show ?case
  proof (cases r)
    case (Inl e')
    with step Cons.prems layoutItem_error[of lookup w x pen s e' key] show ?thesis by simp
  next
    case (Inr next_pen)
    with step Cons.prems Cons.IH show ?thesis
      by (cases next_pen) auto
  qed
qed

lemma layoutChildren_error:
  "fst (layoutChildren s) = Inl e \<Longrightarrow> e \<noteq> DuplicateKey key"
proof -
  assume a: "fst (layoutChildren s) = Inl e"
  show ?thesis
  proof (cases "getElementLookupByKey s")
    case (Inl e')
    with elementLookupFrom_error[of 0 "children (container s)" Map.empty e']
    have "\<exists>i. e' = ElementWithoutDataKey i" by (simp add: getElementLookupByKey_def)
    with a Inl show ?thesis by (auto simp add: layoutChildren_def)
  next
    case (Inr lookup)
    obtain r s1 where run: "layoutItems lookup
        (containerWidth s - margin_horizontal (containerPadding s)) (items s) (0, 0, 0) s = (r, s1)"
      by (cases "layoutItems lookup
        (containerWidth s - margin_horizontal (containerPadding s)) (items s) (0, 0, 0) s")
    with a Inr layoutItems_error[of lookup
        "containerWidth s - margin_horizontal (containerPadding s)" "items s" "(0, 0, 0)" s e key]
    show ?thesis
      by (cases r) (auto simp add: layoutChildren_def)
  qed
qed

lemma updateAndLayout_error:
  "fst (updateAndLayout g force s) = Inl e \<Longrightarrow> e \<noteq> DuplicateKey key"
proof -
  assume a: "fst (updateAndLayout g force s) = Inl e"
  obtain r s1 where u: "updateIndexes g (s\<lparr>isScrolling := True\<rparr>) = (r, s1)"
    by (cases "updateIndexes g (s\<lparr>isScrolling := True\<rparr>)")
  show ?thesis
  proof (cases r)
    case (Inl e')
    with a u updateIndexes_error[of g "s\<lparr>isScrolling := True\<rparr>" e' key] show ?thesis
      by (simp add: updateAndLayout_def)
  next
    case (Inr needsLayout)
    obtain r2 s2 where l: "layoutChildren (ensureElementsObservedAndSized s1) = (r2, s2)"
      by (cases "layoutChildren (ensureElementsObservedAndSized s1)")
    with a u Inr layoutChildren_error[of "ensureElementsObservedAndSized s1" e key]
    show ?thesis
      by (cases r2) (auto simp add: updateAndLayout_def Let_def split: if_splits)
  qed
qed

text \<open>
  C1, as amended. While no pass is in progress (\<^verbatim>\<open>isScrolling\<close> is false), \<^verbatim>\<open>update\<close>
  throws the duplicate-key error if and only if two of the given items have the same key.
  When it throws that error it has run no layout pass: the container, the calls of the
  host callback, the cached item properties and the flag are as before. While
  \<^verbatim>\<open>isScrolling\<close> is true, \<^verbatim>\<open>update\<close> skips the check: it stores the items and the
  render keys and returns the render keys without throwing, duplicates or not.
\<close>

theorem update_duplicates:
  "(\<not> isScrolling s \<longrightarrow>
      (\<exists>key. fst (update g props s) = Inl (DuplicateKey key))
        = (\<not> distinct (map (itemKey s) (props_items props))))
   \<and> (\<forall>key. fst (update g props s) = Inl (DuplicateKey key) \<longrightarrow>
        container (snd (update g props s)) = container s
        \<and> setRenderKeysCalls (snd (update g props s)) = setRenderKeysCalls s
        \<and> itemProperties (snd (update g props s)) = itemProperties s
        \<and> isScrolling (snd (update g props s)) = isScrolling s)
   \<and> (isScrolling s \<longrightarrow>
        update g props s =
          (Inr (props_renderKeys props),
           s\<lparr>items := props_items props, renderKeys := props_renderKeys props\<rparr>))"
proof -
  let ?s1 = "s\<lparr>items := props_items props, renderKeys := props_renderKeys props\<rparr>"
  obtain r lookup where reg:
    "registerItems (itemKey s) (props_items props) [] (itemLookup s) = (r, lookup)"
    by (cases "registerItems (itemKey s) (props_items props) [] (itemLookup s)")
  obtain r2 s2 where pass: "updateAndLayout g True (?s1\<lparr>itemLookup := lookup\<rparr>) = (r2, s2)"
    by (cases "updateAndLayout g True (?s1\<lparr>itemLookup := lookup\<rparr>)")
  have scrolling: "update g props s = (Inr (props_renderKeys props), ?s1)" if "isScrolling s"
    using that by (simp add: update_def Let_def)
  have idle: "update g props s =
      (case r of Inl e \<Rightarrow> (Inl e, ?s1\<lparr>itemLookup := lookup\<rparr>)
       | Inr u \<Rightarrow> (case r2 of Inl e \<Rightarrow> (Inl e, s2) | Inr u' \<Rightarrow> (Inr (renderKeys s2), s2)))"
    if "\<not> isScrolling s"
    using that reg pass by (simp add: update_def Let_def split: sum.splits)
  have a: "(\<exists>key. fst (update g props s) = Inl (DuplicateKey key))
             = (\<not> distinct (map (itemKey s) (props_items props)))" if n: "\<not> isScrolling s"
  proof (cases "distinct (map (itemKey s) (props_items props))")
    case True
    from registerItems_ok[OF True, of "[]" "itemLookup s"] reg have r: "r = Inr ()" by simp
    from updateAndLayout_error[of g True "?s1\<lparr>itemLookup := lookup\<rparr>"] pass
    have "r2 \<noteq> Inl (DuplicateKey key)" for key by auto
    with True r idle[OF n] show ?thesis by (cases r2) auto
  next
    case False
    then have "\<not> (distinct (map (itemKey s) (props_items props))
                 \<and> set [] \<inter> itemKey s ` set (props_items props) = {})" by simp
    from registerItems_duplicate[OF this, of "itemLookup s"] reg
    obtain key where "r = Inl (DuplicateKey key)" by auto
    with False idle[OF n] show ?thesis by simp
  qed
  have b: "container (snd (update g props s)) = container s
        \<and> setRenderKeysCalls (snd (update g props s)) = setRenderKeysCalls s
        \<and> itemProperties (snd (update g props s)) = itemProperties s
        \<and> isScrolling (snd (update g props s)) = isScrolling s"
    if d: "fst (update g props s) = Inl (DuplicateKey key)" for key
  proof (cases "isScrolling s")
    case True
    with scrolling show ?thesis by simp
  next
    case False
    from updateAndLayout_error[of g True "?s1\<lparr>itemLookup := lookup\<rparr>"] pass
    have "r2 \<noteq> Inl (DuplicateKey key)" by auto
    with d idle[OF False] have "\<exists>e. r = Inl e"
      by (cases r; cases r2) auto
    with idle[OF False] show ?thesis by auto
  qed
  from a b scrolling show ?thesis by blast
qed

lemma strayEngine_fields:
  "container strayEngine = exampleContainer\<lparr>children := [placeholderNode, placeholderNode]\<rparr>"
  "activeElement strayEngine = []"
  "itemLookup strayEngine = Map.empty"
  "itemKey strayEngine = fst"
  "itemType strayEngine = snd"
  "itemRect strayEngine = None"
  "itemProperties strayEngine = Map.empty"
  "isScrolling strayEngine = False"
  "lastScrollTop strayEngine = 0"
  "scrollDirection strayEngine = 0"
  "previousItems strayEngine = None"
  by (simp_all add: strayEngine_def exampleEngine_def initialState_def exampleProps_def)

lemma registerItems_single:
  "registerItems fst [(''a'', ''tile'')] [] Map.empty = (Inr (), [''a'' \<mapsto> (''a'', ''tile'')])"
  by (simp add: Set_add_def)

lemma stray_pass:
  assumes "container s = exampleContainer\<lparr>children := [placeholderNode, placeholderNode]\<rparr>"
    and "activeElement s = []" and "itemKey s = fst" and "itemType s = snd"
    and "itemRect s = None" and "itemProperties s = Map.empty"
    and "items s = [(''a'', ''tile'')]"
  shows "updateAndLayout g True s
           = (Inl (ElementWithoutDataKey 1), trackScroll (s\<lparr>isScrolling := True\<rparr>))"
proof -
  let ?s0 = "s\<lparr>isScrolling := True\<rparr>"
  have look: "getElementLookupByKey (trackScroll ?s0) = Inl (ElementWithoutDataKey 1)"
    by (simp add: getElementLookupByKey_def assms isHTMLElement_def truthy_def
        placeholderNode_def exampleContainer_def)
  have "\<exists>w e p. scanItems (trackScroll ?s0)
          (fst (renderWindow (trackScroll ?s0) (scrollDirection (trackScroll ?s0))))
          (snd (renderWindow (trackScroll ?s0) (scrollDirection (trackScroll ?s0))))
          (items (trackScroll ?s0)) [] [] (if isManualLayout (trackScroll ?s0) then None else Some [])
          = Inr (w, e, p)"
    by (rule scanItems_total) (simp add: getItemRect_def assms)
  then obtain d x where
    "getRenderItemIndices (scrollDirection (trackScroll ?s0)) (trackScroll ?s0) = Inr (d, x)"
    by (auto simp add: getRenderItemIndices_def Let_def)
  moreover have "pageSize ?s0 \<noteq> 0"
    by (simp add: pageSize_def assms exampleContainer_def)
  ultimately have "updateIndexes g ?s0 = (Inl (ElementWithoutDataKey 1), trackScroll ?s0)"
    using look by (simp add: updateIndexes_def Let_def)
  then show ?thesis
    by (simp add: updateAndLayout_def)
qed

lemma stray_update:
  "update g (itemsProps [(''a'', ''tile'')]) strayEngine
     = (Inl (ElementWithoutDataKey 1),
        trackScroll (strayEngine\<lparr>items := [(''a'', ''tile'')], renderKeys := [],
                       itemLookup := [''a'' \<mapsto> (''a'', ''tile'')], isScrolling := True\<rparr>))"
proof -
  let ?s = "strayEngine\<lparr>items := [(''a'', ''tile'')], renderKeys := [],
                         itemLookup := [''a'' \<mapsto> (''a'', ''tile'')]\<rparr>"
  have "updateAndLayout g True ?s
          = (Inl (ElementWithoutDataKey 1), trackScroll (?s\<lparr>isScrolling := True\<rparr>))"
    by (rule stray_pass) (simp_all add: strayEngine_fields)
  then show ?thesis
    by (simp add: update_def Let_def itemsProps_def exampleProps_def strayEngine_fields
          registerItems_single)
qed

theorem update_duplicates_witness:
  "(\<exists>key. fst (update passDesired (itemsProps [(''a'', ''tile''), (''a'', ''header'')])
              (manualEngine 5000 [])) = Inl (DuplicateKey key))
   \<and> fst (update passDesired (itemsProps [(''a'', ''tile''), (''a'', ''header'')])
              ((manualEngine 5000 [])\<lparr>isScrolling := True\<rparr>)) = Inr []"
proof -
  let ?props = "itemsProps [(''a'', ''tile''), (''a'', ''header'')]"
  have idle: "\<not> isScrolling (manualEngine 5000 [])" by (simp add: manualEngine_fields)
  have dup: "\<not> distinct (map (itemKey (manualEngine 5000 [])) (props_items ?props))"
    by (simp add: manualEngine_fields itemsProps_def)
  have busy: "isScrolling ((manualEngine 5000 [])\<lparr>isScrolling := True\<rparr>)" by simp
  have keys: "props_renderKeys ?props = []" by (simp add: itemsProps_def exampleProps_def)
  from update_duplicates[of "manualEngine 5000 []" passDesired ?props] idle dup
  have "\<exists>key. fst (update passDesired ?props (manualEngine 5000 [])) = Inl (DuplicateKey key)"
    by blast
  moreover
  from update_duplicates[of "(manualEngine 5000 [])\<lparr>isScrolling := True\<rparr>" passDesired ?props] busy
  have "fst (update passDesired ?props ((manualEngine 5000 [])\<lparr>isScrolling := True\<rparr>))
          = Inr (props_renderKeys ?props)"
    by simp
  ultimately show ?thesis unfolding keys by blast
qed

text \<open>
  C1 as the claim states it fails, on a state the engine reaches. A pass that throws
  leaves \<^verbatim>\<open>isScrolling\<close> set: the first \<^verbatim>\<open>update\<close> below throws because an element
  lacks its data key. The next \<^verbatim>\<open>update\<close> is given two items with the key \<open>a\<close> and
  returns the render keys without throwing.
\<close>

theorem update_duplicates_counterexample:
  "fst (update passDesired (itemsProps [(''a'', ''tile'')]) strayEngine)
     = Inl (ElementWithoutDataKey 1)
   \<and> \<not> distinct (map (itemKey (snd (update passDesired (itemsProps [(''a'', ''tile'')]) strayEngine)))
                    (props_items (itemsProps [(''a'', ''tile''), (''a'', ''header'')])))
   \<and> fst (update passDesired (itemsProps [(''a'', ''tile''), (''a'', ''header'')])
            (snd (update passDesired (itemsProps [(''a'', ''tile'')]) strayEngine)))
     = Inr []"
proof -
  let ?s1 = "trackScroll (strayEngine\<lparr>items := [(''a'', ''tile'')], renderKeys := [],
                       itemLookup := [''a'' \<mapsto> (''a'', ''tile'')], isScrolling := True\<rparr>)"
  have key: "itemKey ?s1 = fst"
    by (simp add: strayEngine_fields)
  have busy: "isScrolling ?s1"
    unfolding trackScroll_eq Let_def by simp
  have "fst (update passDesired (itemsProps [(''a'', ''tile''), (''a'', ''header'')]) ?s1) = Inr []"
    using busy by (simp add: update_def Let_def itemsProps_def exampleProps_def)
  then show ?thesis
    unfolding stray_update by (simp add: strayEngine_fields itemsProps_def)
qed

end
